theory Spec2Isabelle
  imports Complex_Main "HOL-Library.List_Lexorder"
begin

section \<open>Payslip generation: the PDF exporter and the batch driver\<close>

text \<open>
  A shallow embedding of \<^verbatim>\<open>src/pdf/reportlab_payslip_exporter.py\<close>,
  \<^verbatim>\<open>src/utils/asset_validation.py\<close> and the batch loop of \<^verbatim>\<open>src/main.py\<close>.

  Conventions of the embedding.
  \<^item> A Python \<^verbatim>\<open>str\<close> is the list of its Unicode code points (\<open>nat list\<close>);
    \<open>py ''abc''\<close> writes an ASCII literal.
  \<^item> A Python \<^verbatim>\<open>float\<close> that holds an amount is a \<open>pyfloat\<close>: a finite value
    \<open>Fin x\<close> with its exact value \<open>x\<close> (\<open>Fin 0\<close> is \<^verbatim>\<open>0.0\<close>), the negative zero, the two
    infinities or \<^verbatim>\<open>nan\<close>.
  \<^item> Float arithmetic rounds its exact result: \<open>fsub w a b = rnd w (a - b)\<close>, where the
    rounding \<open>rnd w\<close> belongs to the world \<open>w\<close> the program runs in, and \<open>overflow w r\<close>
    says that the rounded result \<open>r\<close> is beyond the largest finite float. Theorems that
    need facts about rounding assume them: \<open>rounding w\<close> (monotone, idempotent, exact at
    zero) or a bound on the relative error. Both hold for IEEE round-to-nearest, which
    \<open>b64\<close> below defines for binary64, and for exact arithmetic (\<open>rnd w = (\<lambda>x. x)\<close>).
  \<^item> A coordinate on the page (the layout cursor, a margin, a gap) is a finite float,
    modelled by its exact value, a \<open>real\<close>; overflow of a coordinate is not modelled.
  \<^item> Everything the program reads from outside (the clock, the file system, the image
    decoder, reportlab's unit \<^verbatim>\<open>mm\<close>) is a field of the world.
  \<^item> An exception is a value of \<open>pyexn\<close>; a function that may raise returns
    \<open>pyexn + 'a\<close>. Messages are those of CPython 3.10 and 3.11, the interpreter
    \<^verbatim>\<open>src/preflight.py\<close> asks for.
\<close>

subsection \<open>Strings\<close>

type_synonym pystr = "nat list"

abbreviation (input) py :: "string \<Rightarrow> pystr" where
  "py s \<equiv> map of_char s"

text \<open>The code points for which \<^verbatim>\<open>str.isspace\<close> holds; \<^verbatim>\<open>str.strip()\<close> and
  \<^verbatim>\<open>str.split()\<close> without arguments use this set.\<close>

definition is_space :: "nat \<Rightarrow> bool" where
  "is_space c = (c \<in> {9, 10, 11, 12, 13, 28, 29, 30, 31, 32, 133, 160, 5760,
      8192, 8193, 8194, 8195, 8196, 8197, 8198, 8199, 8200, 8201, 8202,
      8232, 8233, 8239, 8287, 12288})"

definition strip :: "pystr \<Rightarrow> pystr" where
  "strip s = rev (dropWhile is_space (rev (dropWhile is_space s)))"

text \<open>\<^verbatim>\<open>s.replace(ch, new)\<close> for a one-character \<^verbatim>\<open>ch\<close> and a one-character \<^verbatim>\<open>new\<close>.\<close>

definition replace_char :: "nat \<Rightarrow> nat \<Rightarrow> pystr \<Rightarrow> pystr" where
  "replace_char ch new s = map (\<lambda>c. if c = ch then new else c) s"

text \<open>\<^verbatim>\<open>s.split()\<close>: the maximal runs of non-whitespace, in order.\<close>

function split_ws :: "pystr \<Rightarrow> pystr list" where
  "split_ws [] = []"
| "split_ws (c # cs) =
     (if is_space c then split_ws cs
      else (c # takeWhile (\<lambda>d. \<not> is_space d) cs) # split_ws (dropWhile (\<lambda>d. \<not> is_space d) cs))"
  by pat_completeness auto
termination
  by (relation "measure length") (auto simp: le_imp_less_Suc length_dropWhile_le)

text \<open>\<^verbatim>\<open>" ".join(parts)\<close>.\<close>

fun join_space :: "pystr list \<Rightarrow> pystr" where
  "join_space [] = []"
| "join_space [p] = p"
| "join_space (p # q # ps) = p @ 32 # join_space (q # ps)"

text \<open>\<^verbatim>\<open>main._sanitise_filename_part\<close>. The argument is optional because of
  \<^verbatim>\<open>(s or "")\<close>.\<close>

definition forbidden_chars :: "nat list" where
  "forbidden_chars = py ''/'' @ [92] @ py '':*?'' @ [34] @ py ''<>|'' @ [10, 13, 9]"

definition sanitise_filename_part :: "pystr option \<Rightarrow> pystr" where
  "sanitise_filename_part s =
     (let s0 = strip (case s of None \<Rightarrow> [] | Some t \<Rightarrow> t);
          s1 = foldl (\<lambda>t ch. replace_char ch 45 t) s0 forbidden_chars
      in join_space (split_ws s1))"

subsection \<open>Floats\<close>

text \<open>The exceptions the program can meet. \<open>NonFinite\<close> is not a Python exception: it
  marks a render whose footer gap is an infinity or \<^verbatim>\<open>nan\<close>, so that the layout cursor
  stops being a finite float. What reportlab does with such a cursor is not modelled,
  and no statement below is about such a render.\<close>

datatype pyexn =
    KeyError pystr
  | OSError pystr
  | FileNotFoundError pystr
  | ValueError pystr
  | TypeError pystr
  | OverflowError pystr
  | NonFinite

text \<open>\<^verbatim>\<open>str(e)\<close>: the message, and for a \<^verbatim>\<open>KeyError\<close> the \<^verbatim>\<open>repr\<close> of the key
  (written for keys without quotes or escapes, which is what the exporter looks up).\<close>

fun exn_str :: "pyexn \<Rightarrow> pystr" where
  "exn_str (KeyError k) = [39] @ k @ [39]"
| "exn_str (OSError m) = m"
| "exn_str (FileNotFoundError m) = m"
| "exn_str (ValueError m) = m"
| "exn_str (TypeError m) = m"
| "exn_str (OverflowError m) = m"
| "exn_str NonFinite = []"

datatype pyfloat = Fin real | NegZero | PosInf | NegInf | NaN

fun is_finite :: "pyfloat \<Rightarrow> bool" where
  "is_finite (Fin x) = True"
| "is_finite NegZero = True"
| "is_finite x = False"

text \<open>The value of a finite float.\<close>

fun val :: "pyfloat \<Rightarrow> real" where
  "val (Fin x) = x"
| "val x = 0"

text \<open>A cell of the payroll sheet, as \<^verbatim>\<open>_safe_float\<close> sees it: \<^verbatim>\<open>None\<close>, a string, an
  object that \<^verbatim>\<open>float()\<close> converts (with the float it gives), or an object on which
  \<^verbatim>\<open>float()\<close> raises.\<close>

datatype cell = CNone | CStr pystr | CNum pyfloat | COther

record world =
  rnd :: "real \<Rightarrow> real"
  overflow :: "real \<Rightarrow> bool"
  mm :: real
  now :: pystr
  image_ok :: "pystr \<Rightarrow> bool"
  mkdir_error :: "pystr \<Rightarrow> pyexn option"
  save_error :: "pystr \<Rightarrow> pyexn option"
  path_exists :: "pystr \<Rightarrow> bool"
  resolve :: "pystr \<Rightarrow> pystr"
  image_size :: "pystr \<Rightarrow> pyexn + (nat \<times> nat)"
  parse_float :: "pystr \<Rightarrow> pyfloat option"
  float_repr :: "pyfloat \<Rightarrow> pystr"
  summary_dir_error :: "pyexn option"
  manifest_error :: "pyexn option"

text \<open>
  The fields of the world: \<open>rnd\<close> rounds the exact result of a float operation and
  \<open>overflow\<close> says whether the rounded result is too large for a finite float;
  \<open>mm\<close> is \<^verbatim>\<open>reportlab.lib.units.mm\<close>; \<open>now\<close> is
  \<^verbatim>\<open>datetime.now().strftime("%Y-%m-%d %H:%M:%S")\<close>; \<open>image_ok p\<close> says that
  \<^verbatim>\<open>Canvas.drawImage\<close> loads the file \<open>p\<close> without raising; \<open>mkdir_error p\<close> and
  \<open>save_error p\<close> are the exceptions, if any, of creating the parent directory of \<open>p\<close>
  and of writing the PDF \<open>p\<close>; \<open>path_exists\<close> and \<open>resolve\<close> are
  \<^verbatim>\<open>Path.exists\<close> and \<^verbatim>\<open>Path.resolve\<close>; \<open>image_size p\<close> is
  \<^verbatim>\<open>Image.open(p).size\<close>; \<open>parse_float s\<close> is \<^verbatim>\<open>float(s)\<close> on a string, \<open>None\<close>
  when it raises; \<open>float_repr x\<close> is \<^verbatim>\<open>str(x)\<close> of a float; \<open>summary_dir_error\<close> and
  \<open>manifest_error\<close> are the exceptions, if any, of creating the summary directory and of
  writing the manifest file.
\<close>

definition fadd :: "world \<Rightarrow> real \<Rightarrow> real \<Rightarrow> real" where
  "fadd w a b = rnd w (a + b)"

definition fsub :: "world \<Rightarrow> real \<Rightarrow> real \<Rightarrow> real" where
  "fsub w a b = rnd w (a - b)"

definition fmul :: "world \<Rightarrow> real \<Rightarrow> real \<Rightarrow> real" where
  "fmul w a b = rnd w (a * b)"

definition fdiv :: "world \<Rightarrow> real \<Rightarrow> real \<Rightarrow> real" where
  "fdiv w a b = rnd w (a / b)"

definition rounding :: "world \<Rightarrow> bool" where
  "rounding w = (rnd w 0 = 0 \<and> (\<forall>a b. a \<le> b \<longrightarrow> rnd w a \<le> rnd w b) \<and> (\<forall>a. rnd w (rnd w a) = rnd w a))"

text \<open>Addition, negation and subtraction of amounts, with the special values of
  IEEE 754: \<open>fin w x\<close> is the float for an exact result \<open>x\<close>, an infinity when the rounded
  result overflows; \<^verbatim>\<open>nan\<close> absorbs everything, the sum of the two infinities is
  \<^verbatim>\<open>nan\<close>, a zero sum of two finite values is \<^verbatim>\<open>0.0\<close> unless both are \<^verbatim>\<open>-0.0\<close>, and
  \<^verbatim>\<open>x - y\<close> is \<^verbatim>\<open>x + (-y)\<close>.\<close>

definition fin :: "world \<Rightarrow> real \<Rightarrow> pyfloat" where
  "fin w x = (let r = rnd w x in
     if overflow w r then (if 0 < r then PosInf else NegInf) else Fin r)"

fun pf_neg :: "pyfloat \<Rightarrow> pyfloat" where
  "pf_neg (Fin x) = (if x = 0 then NegZero else Fin (- x))"
| "pf_neg NegZero = Fin 0"
| "pf_neg PosInf = NegInf"
| "pf_neg NegInf = PosInf"
| "pf_neg NaN = NaN"

fun pf_add :: "world \<Rightarrow> pyfloat \<Rightarrow> pyfloat \<Rightarrow> pyfloat" where
  "pf_add w NaN y = NaN"
| "pf_add w x NaN = NaN"
| "pf_add w PosInf NegInf = NaN"
| "pf_add w NegInf PosInf = NaN"
| "pf_add w PosInf y = PosInf"
| "pf_add w x PosInf = PosInf"
| "pf_add w NegInf y = NegInf"
| "pf_add w x NegInf = NegInf"
| "pf_add w NegZero y = y"
| "pf_add w x NegZero = x"
| "pf_add w (Fin a) (Fin b) = fin w (a + b)"

definition pf_sub :: "world \<Rightarrow> pyfloat \<Rightarrow> pyfloat \<Rightarrow> pyfloat" where
  "pf_sub w x y = pf_add w x (pf_neg y)"

text \<open>\<^verbatim>\<open>sum(x.amount for x in items)\<close>: the additions from left to right, starting from
  the integer \<^verbatim>\<open>0\<close>, which the first addition converts to \<^verbatim>\<open>0.0\<close> and which formats
  like \<^verbatim>\<open>0.0\<close> when the list is empty. This is \<^verbatim>\<open>sum\<close> of CPython 3.10 and 3.11; from
  3.12 on \<^verbatim>\<open>sum\<close> carries a compensation term for the rounding errors.\<close>

definition py_sum :: "world \<Rightarrow> pyfloat list \<Rightarrow> pyfloat" where
  "py_sum w xs = foldl (pf_add w) (Fin 0) xs"

text \<open>IEEE 754 binary64 with round-to-nearest, ties to even, as a rounding of the reals:
  \<open>ilog2 x\<close> is the exponent \<open>e\<close> with \<open>2^e \<le> x < 2^(e+1)\<close>, and \<open>b64 x\<close> is the
  multiple of \<open>2^(e-52)\<close> nearest to \<open>x\<close>. The exponent range is not bounded here: overflow
  is the world's \<open>overflow\<close>, and subnormal numbers do not occur in what follows.\<close>

definition round_half_even :: "real \<Rightarrow> int" where
  "round_half_even x = (let f = \<lfloor>x\<rfloor>; d = x - of_int f in
     if d < 1/2 then f else if 1/2 < d then f + 1 else if even f then f else f + 1)"

function ilog2 :: "real \<Rightarrow> int" where
  "ilog2 x = (if x \<le> 0 then 0
              else if 2 \<le> x then ilog2 (x / 2) + 1
              else if x < 1 then ilog2 (x * 2) - 1
              else 0)"
  by pat_completeness auto
termination
proof (relation "measure (\<lambda>x. nat \<bar>\<lfloor>log 2 x\<rfloor>\<bar>)")
  show "wf (measure (\<lambda>x. nat \<bar>\<lfloor>log 2 x\<rfloor>\<bar>))" by simp
next
  fix x :: real
  assume "\<not> x \<le> 0" and x: "2 \<le> x"
  then have "log 2 (x / 2) = log 2 x - 1" by (simp add: log_divide)
  then have f: "\<lfloor>log 2 (x / 2)\<rfloor> = \<lfloor>log 2 x\<rfloor> - 1" by simp
  have "1 \<le> log 2 x" using x by (simp add: le_log_iff)
  then have k: "1 \<le> \<lfloor>log 2 x\<rfloor>" by (simp add: le_floor_iff)
  have "nat \<bar>\<lfloor>log 2 (x / 2)\<rfloor>\<bar> < nat \<bar>\<lfloor>log 2 x\<rfloor>\<bar>"
    unfolding f using k by linarith
  then show "(x / 2, x) \<in> measure (\<lambda>x. nat \<bar>\<lfloor>log 2 x\<rfloor>\<bar>)" by simp
next
  fix x :: real
  assume p: "\<not> x \<le> 0" and "\<not> 2 \<le> x" and x: "x < 1"
  then have "log 2 (x * 2) = log 2 x + 1" by (simp add: log_mult)
  then have f: "\<lfloor>log 2 (x * 2)\<rfloor> = \<lfloor>log 2 x\<rfloor> + 1" by simp
  have "log 2 x < 0" using p x by simp
  then have k: "\<lfloor>log 2 x\<rfloor> < 0" by (simp add: floor_less_iff)
  have "nat \<bar>\<lfloor>log 2 (x * 2)\<rfloor>\<bar> < nat \<bar>\<lfloor>log 2 x\<rfloor>\<bar>"
    unfolding f using k by linarith
  then show "(x * 2, x) \<in> measure (\<lambda>x. nat \<bar>\<lfloor>log 2 x\<rfloor>\<bar>)" by simp
qed

declare ilog2.simps [simp del]

definition b64 :: "real \<Rightarrow> real" where
  "b64 x = (if x = 0 then 0
            else let u = 2 powi (ilog2 \<bar>x\<bar> - 52)
                 in sgn x * of_int (round_half_even (\<bar>x\<bar> / u)) * u)"

subsection \<open>The currency formatter\<close>

definition is_digit :: "nat \<Rightarrow> bool" where
  "is_digit c = (48 \<le> c \<and> c \<le> 57)"

definition digit_char :: "nat \<Rightarrow> nat" where
  "digit_char d = 48 + d"

fun digits :: "nat \<Rightarrow> pystr" where
  "digits n = (if n < 10 then [digit_char n] else digits (n div 10) @ [digit_char (n mod 10)])"

declare digits.simps [simp del]

text \<open>The \<^verbatim>\<open>,\<close> option of the format specification: a comma before every group of
  three digits, counted from the right.\<close>

fun group3 :: "pystr \<Rightarrow> pystr" where
  "group3 ds = (if length ds \<le> 3 then ds
     else group3 (take (length ds - 3) ds) @ 44 # drop (length ds - 3) ds)"

declare group3.simps [simp del]

text \<open>Python formats a finite float from its exact value, correctly rounded: the nearest
  multiple of the last place, and the even one of the two when the value is exactly
  halfway (\<open>round_half_even\<close> above). \<open>format_fixed grouping x\<close> is the result for a
  finite \<open>x\<close> other than the negative zero: a minus sign when \<open>x < 0\<close>, the integer digits
  (in groups of three when \<open>grouping\<close> holds), a point and two digits.\<close>

definition format_fixed :: "bool \<Rightarrow> real \<Rightarrow> pystr" where
  "format_fixed grouping x =
     (let q = nat (round_half_even (\<bar>x\<bar> * 100));
          ip = digits (q div 100);
          fp = [digit_char (q mod 100 div 10), digit_char (q mod 10)]
      in (if x < 0 then [45] else []) @ (if grouping then group3 ip else ip) @ [46] @ fp)"

text \<open>\<^verbatim>\<open>f"{x:,.2f}"\<close> when \<open>grouping\<close> holds and \<^verbatim>\<open>f"{x:.2f}"\<close> otherwise. The negative
  zero keeps its sign; an infinity and \<^verbatim>\<open>nan\<close> are printed by name, without digits.\<close>

fun format_2f :: "bool \<Rightarrow> pyfloat \<Rightarrow> pystr" where
  "format_2f grouping (Fin x) = format_fixed grouping x"
| "format_2f grouping NegZero = 45 # format_fixed grouping 0"
| "format_2f grouping PosInf = py ''inf''"
| "format_2f grouping NegInf = py ''-inf''"
| "format_2f grouping NaN = py ''nan''"

definition fmt_currency :: "pyfloat \<Rightarrow> pystr option \<Rightarrow> pystr" where
  "fmt_currency amount symbol =
     (let sym = (case symbol of None \<Rightarrow> [] | Some s \<Rightarrow> s)
      in sym @ format_2f True amount)"

text \<open>Reading a formatted amount back, to state what the formatter prints:
  \<open>grouped3\<close> recognises one to three digits followed by groups of a comma and three
  digits; \<open>from_digits\<close> is the number a digit string denotes; \<open>printed_hundredths\<close> is
  the signed number of hundredths a formatted amount denotes.\<close>

fun grouped3 :: "pystr \<Rightarrow> bool" where
  "grouped3 s = (let n = length s in
     if n \<le> 3 then s \<noteq> [] \<and> list_all is_digit s
     else s ! (n - 4) = 44 \<and> list_all is_digit (drop (n - 3) s) \<and> grouped3 (take (n - 4) s))"

declare grouped3.simps [simp del]

definition from_digits :: "pystr \<Rightarrow> nat" where
  "from_digits ds = foldl (\<lambda>acc c. 10 * acc + (c - 48)) 0 ds"

definition printed_hundredths :: "pystr \<Rightarrow> int" where
  "printed_hundredths s =
     (if 45 \<in> set s then - 1 else 1) * int (from_digits (filter is_digit s))"

definition symbol_text :: "pystr option \<Rightarrow> pystr" where
  "symbol_text symbol = (case symbol of None \<Rightarrow> [] | Some s \<Rightarrow> s)"

text \<open>The rounding the specification names, half away from zero, to compare the
  formatter with.\<close>

definition round_half_away :: "real \<Rightarrow> int" where
  "round_half_away x = (if 0 \<le> x then \<lfloor>x + 1/2\<rfloor> else - \<lfloor>- x + 1/2\<rfloor>)"

subsection \<open>Values of the configuration\<close>

text \<open>A value of the footer dictionary, which comes from a YAML file: \<^verbatim>\<open>None\<close>, a
  boolean, an integer, a float, a string, or another object (a list, a mapping, a
  date), given by the name of its type and its \<^verbatim>\<open>str()\<close>.\<close>

datatype pyval =
    VNone
  | VBool bool
  | VInt int
  | VFloat pyfloat
  | VStr pystr
  | VObj pystr pystr

text \<open>\<^verbatim>\<open>str(n)\<close> for an integer, \<^verbatim>\<open>str(v)\<close> and \<^verbatim>\<open>float(v)\<close> for a value. The
  \<^verbatim>\<open>repr\<close> in the message of the \<^verbatim>\<open>ValueError\<close> is written for strings without quotes
  or escapes.\<close>

definition str_int :: "int \<Rightarrow> pystr" where
  "str_int n = (if n < 0 then 45 # digits (nat (- n)) else digits (nat n))"

definition py_str :: "world \<Rightarrow> pyval \<Rightarrow> pystr" where
  "py_str w v =
     (case v of
        VNone \<Rightarrow> py ''None''
      | VBool b \<Rightarrow> (if b then py ''True'' else py ''False'')
      | VInt n \<Rightarrow> str_int n
      | VFloat x \<Rightarrow> float_repr w x
      | VStr s \<Rightarrow> s
      | VObj ty s \<Rightarrow> s)"

definition float_type_error :: "pystr \<Rightarrow> pyexn" where
  "float_type_error ty =
     TypeError (py ''float() argument must be a string or a real number, not '' @ [39] @ ty @ [39])"

definition py_float :: "world \<Rightarrow> pyval \<Rightarrow> pyexn + pyfloat" where
  "py_float w v =
     (case v of
        VNone \<Rightarrow> Inl (float_type_error (py ''NoneType''))
      | VBool b \<Rightarrow> Inr (Fin (if b then 1 else 0))
      | VInt n \<Rightarrow>
          (if overflow w (rnd w (of_int n))
           then Inl (OverflowError (py ''int too large to convert to float''))
           else Inr (Fin (rnd w (of_int n))))
      | VFloat x \<Rightarrow> Inr x
      | VStr s \<Rightarrow>
          (case parse_float w s of
             None \<Rightarrow> Inl (ValueError (py ''could not convert string to float: '' @ [39] @ s @ [39]))
           | Some x \<Rightarrow> Inr x)
      | VObj ty s \<Rightarrow> Inl (float_type_error ty))"

subsection \<open>The canvas and the layout cursor\<close>

text \<open>The calls made on the reportlab canvas, in the order they are made. The canvas
  keeps them in memory until \<^verbatim>\<open>save\<close> writes the file.\<close>

datatype op =
    SetFont pystr nat
  | DrawString real real pystr
  | DrawCentredString real real pystr
  | DrawRightString real real pystr
  | SetLineWidth nat
  | Line real real real real
  | DrawImage pystr real real real real
  | ShowPage
  | Save

record line_item =
  label :: pystr
  amount :: pyfloat

record exporter =
  page_size :: "real \<times> real"
  margin :: real
  line_gap :: real

text \<open>\<^verbatim>\<open>reportlab.lib.pagesizes.A4\<close> and \<^verbatim>\<open>ReportLabPayslipExporter.__init__\<close>
  with its defaults.\<close>

definition A4 :: "world \<Rightarrow> real \<times> real" where
  "A4 w = (fmul w 210 (mm w), fmul w 297 (mm w))"

definition init_exporter :: "world \<Rightarrow> real \<Rightarrow> real \<Rightarrow> exporter" where
  "init_exporter w margin_mm gap =
     \<lparr>page_size = A4 w, margin = fmul w margin_mm (mm w), line_gap = gap\<rparr>"

definition default_exporter :: "world \<Rightarrow> exporter" where
  "default_exporter w = init_exporter w 14 14"

text \<open>The state of one \<^verbatim>\<open>render_pdf\<close> call: the canvas calls made so far, the local
  variable \<^verbatim>\<open>y\<close> (the layout cursor), and the history of the cursor, that is every
  value \<^verbatim>\<open>y\<close> has had, oldest first.\<close>

record rstate =
  canvas_ops :: "op list"
  cur_y :: real
  y_hist :: "real list"

type_synonym step = "rstate \<Rightarrow> pyexn + rstate"

definition draw :: "op \<Rightarrow> step" where
  "draw c s = Inr (s\<lparr>canvas_ops := canvas_ops s @ [c]\<rparr>)"

definition draw_at :: "(real \<Rightarrow> op) \<Rightarrow> step" where
  "draw_at f s = draw (f (cur_y s)) s"

definition set_y :: "(real \<Rightarrow> real) \<Rightarrow> step" where
  "set_y f s = (let v = f (cur_y s) in Inr (s\<lparr>cur_y := v, y_hist := y_hist s @ [v]\<rparr>))"

text \<open>\<^verbatim>\<open>y -= d\<close>, and a statement that raises.\<close>

definition down :: "world \<Rightarrow> real \<Rightarrow> step" where
  "down w d = set_y (\<lambda>y. fsub w y d)"

definition raise :: "pyexn \<Rightarrow> step" where
  "raise e s = Inl e"

fun run :: "step list \<Rightarrow> step" where
  "run [] s = Inr s"
| "run (f # fs) s = (case f s of Inl e \<Rightarrow> Inl e | Inr s' \<Rightarrow> run fs s')"

text \<open>\<^verbatim>\<open>c.drawImage(...)\<close> inside \<^verbatim>\<open>try: ... except Exception: pass\<close>, guarded by
  \<^verbatim>\<open>if path:\<close>. A \<^verbatim>\<open>Path\<close> is always true, so the guard only excludes \<^verbatim>\<open>None\<close>.\<close>

definition try_draw_image :: "world \<Rightarrow> pystr option \<Rightarrow> (pystr \<Rightarrow> real \<Rightarrow> op) \<Rightarrow> step" where
  "try_draw_image w path f s =
     (case path of None \<Rightarrow> Inr s
      | Some p \<Rightarrow> if image_ok w p then draw_at (f p) s else Inr s)"

text \<open>\<^verbatim>\<open>c.drawString(x, y, labels[key])\<close>: the lookup raises \<^verbatim>\<open>KeyError\<close> before
  anything is drawn.\<close>

definition draw_label :: "(pystr \<rightharpoonup> pystr) \<Rightarrow> pystr \<Rightarrow> real \<Rightarrow> step" where
  "draw_label labels key x s =
     (case labels key of None \<Rightarrow> Inl (KeyError key)
      | Some l \<Rightarrow> draw_at (\<lambda>y. DrawString x y l) s)"

text \<open>\<^verbatim>\<open>_sep\<close>, \<^verbatim>\<open>_section_title\<close> and \<^verbatim>\<open>_line_items\<close>.\<close>

definition sep :: "real \<Rightarrow> real \<Rightarrow> step list" where
  "sep x0 x1 = [draw (SetLineWidth 4), draw_at (\<lambda>y. Line x0 y x1 y)]"

definition section_title :: "world \<Rightarrow> real \<Rightarrow> pystr \<Rightarrow> step list" where
  "section_title w x0 title =
     [draw (SetFont (py ''Helvetica-Bold'') 12),
      draw_at (\<lambda>y. DrawString x0 y title),
      draw (SetLineWidth 1),
      draw_at (\<lambda>y. Line x0 (fsub w y 2) (fadd w x0 (fmul w 30 (mm w))) (fsub w y 2)),
      down w 20]"

definition item_row :: "world \<Rightarrow> exporter \<Rightarrow> real \<Rightarrow> real \<Rightarrow> pystr option \<Rightarrow> line_item \<Rightarrow> step list" where
  "item_row w self x0 x1 symbol it =
     [draw_at (\<lambda>y. DrawString x0 y (label it)),
      draw_at (\<lambda>y. DrawRightString x1 y (fmt_currency (amount it) symbol)),
      down w (line_gap self)]"

definition line_items :: "world \<Rightarrow> exporter \<Rightarrow> real \<Rightarrow> real \<Rightarrow> line_item list \<Rightarrow> pystr option \<Rightarrow> step list" where
  "line_items w self x0 x1 items symbol =
     draw (SetFont (py ''Helvetica'') 11) # concat (map (item_row w self x0 x1 symbol) items)"

subsection \<open>The sections of \<^verbatim>\<open>render_pdf\<close>\<close>

record footer =
  approved_by_label :: "pyval option"
  approved_by_name :: "pyval option"
  signature_gap_mm :: "pyval option"
  name_gap_mm :: "pyval option"

text \<open>The keyword arguments of \<^verbatim>\<open>render_pdf\<close>. The footer configuration is a
  dictionary in the source; its four keys are the fields of \<open>footer\<close>, \<open>None\<close> for an
  absent key.\<close>

record payslip =
  company_line1 :: pystr
  company_line2 :: pystr
  period_display :: pystr
  employee :: "pystr \<rightharpoonup> pystr"
  earnings :: "line_item list"
  deductions :: "line_item list"
  totals_labels :: "pystr \<rightharpoonup> pystr"
  logo_path :: "pystr option"
  signature_path :: "pystr option"
  currency_symbol :: "pystr option"
  footer_cfg :: "footer option"
  generated_at :: "pystr option"

text \<open>\<^verbatim>\<open>d.get(key, default)\<close>.\<close>

definition get_or :: "'a option \<Rightarrow> 'a \<Rightarrow> 'a" where
  "get_or v d = (case v of None \<Rightarrow> d | Some x \<Rightarrow> x)"

text \<open>Lines 62 to 64: the totals, computed before the canvas is created.\<close>

definition totals :: "world \<Rightarrow> line_item list \<Rightarrow> line_item list \<Rightarrow> pyfloat \<times> pyfloat \<times> pyfloat" where
  "totals w es ds =
     (let gross = py_sum w (map amount es);
          total_deduction = py_sum w (map amount ds);
          net_pay = pf_sub w gross total_deduction
      in (gross, total_deduction, net_pay))"

text \<open>Lines 82 to 119: the logo in its fixed box, the three titles, the first
  separator.\<close>

definition header :: "world \<Rightarrow> exporter \<Rightarrow> payslip \<Rightarrow> step list" where
  "header w self d =
     (let width = fst (page_size self); height = snd (page_size self);
          x0 = margin self; x1 = fsub w width (margin self);
          logo_box_w = fmul w 60 (mm w);
          logo_box_h = fmul w 32 (mm w);
          logo_right_pad = fmul w 0 (mm w);
          logo_top_pad = fmul w 2 (mm w);
          box_x = fsub w (fsub w width logo_right_pad) logo_box_w;
          box_y = fsub w (fsub w height logo_top_pad) logo_box_h;
          mid = fdiv w (fadd w x0 x1) 2
      in [try_draw_image w (logo_path d) (\<lambda>p y. DrawImage p box_x box_y logo_box_w logo_box_h),
          draw (SetFont (py ''Helvetica-Bold'') 14),
          draw_at (\<lambda>y. DrawCentredString mid (fsub w y (fmul w 2 (mm w))) (company_line1 d)),
          draw (SetFont (py ''Helvetica-Bold'') 13),
          draw_at (\<lambda>y. DrawCentredString mid (fsub w y (fmul w 9 (mm w))) (company_line2 d)),
          draw (SetFont (py ''Helvetica-Bold'') 12),
          draw_at (\<lambda>y. DrawCentredString mid (fsub w y (fmul w 16 (mm w))) (period_display d)),
          down w (fmul w 22 (mm w))]
         @ sep x0 x1
         @ [down w (fmul w 10 (mm w))])"

text \<open>Lines 121 to 143: the five rows of the employee block.\<close>

definition info_row :: "world \<Rightarrow> exporter \<Rightarrow> real \<Rightarrow> real \<Rightarrow> pystr \<times> pystr \<Rightarrow> step list" where
  "info_row w self label_x value_x kv =
     [draw_at (\<lambda>y. DrawString label_x y (fst kv)),
      draw (SetFont (py ''Helvetica'') 11),
      draw_at (\<lambda>y. DrawString value_x y (snd kv)),
      draw (SetFont (py ''Helvetica-Bold'') 11),
      down w (line_gap self)]"

definition employee_info :: "world \<Rightarrow> exporter \<Rightarrow> payslip \<Rightarrow> step list" where
  "employee_info w self d =
     (let x0 = margin self; x1 = fsub w (fst (page_size self)) (margin self);
          label_x = x0;
          value_x = fadd w x0 (fmul w 70 (mm w));
          info_rows =
            [(py ''EMPLOYEE REFERENCE NO'', get_or (employee d (py ''ref'')) []),
             (py ''NAME'', get_or (employee d (py ''name'')) []),
             (py ''DESIGNATION'', get_or (employee d (py ''designation'')) []),
             (py ''DEPARTMENT'', get_or (employee d (py ''department'')) []),
             (py ''MONTH'', period_display d)]
      in draw (SetFont (py ''Helvetica-Bold'') 11)
         # concat (map (info_row w self label_x value_x) info_rows)
         @ [down w (fmul w 2 (mm w))]
         @ sep x0 x1
         @ [down w (fmul w 12 (mm w))])"

text \<open>Lines 145 to 156: the earnings rows and the gross total.\<close>

definition earnings_section :: "world \<Rightarrow> exporter \<Rightarrow> payslip \<Rightarrow> pyfloat \<Rightarrow> step list" where
  "earnings_section w self d gross =
     (let x0 = margin self; x1 = fsub w (fst (page_size self)) (margin self)
      in section_title w x0 (py ''EARNINGS:'')
         @ line_items w self x0 x1 (earnings d) (currency_symbol d)
         @ [draw (SetFont (py ''Helvetica-Bold'') 11),
            draw_label (totals_labels d) (py ''gross_income_label'') x0,
            draw_at (\<lambda>y. DrawRightString x1 y (fmt_currency gross (currency_symbol d))),
            down w (line_gap self),
            down w (fmul w 6 (mm w))]
         @ sep x0 x1
         @ [down w (fmul w 12 (mm w))])"

text \<open>Lines 158 to 165: the deduction rows and their total.\<close>

definition deductions_section :: "world \<Rightarrow> exporter \<Rightarrow> payslip \<Rightarrow> pyfloat \<Rightarrow> step list" where
  "deductions_section w self d total_deduction =
     (let x0 = margin self; x1 = fsub w (fst (page_size self)) (margin self)
      in section_title w x0 (py ''DEDUCTIONS:'')
         @ line_items w self x0 x1 (deductions d) (currency_symbol d)
         @ [draw (SetFont (py ''Helvetica-Bold'') 11),
            draw_label (totals_labels d) (py ''total_deduction_label'') x0,
            draw_at (\<lambda>y. DrawRightString x1 y (fmt_currency total_deduction (currency_symbol d))),
            down w (line_gap self)])"

text \<open>Lines 168 to 185: the net pay row between two separators.\<close>

definition net_pay_section :: "world \<Rightarrow> exporter \<Rightarrow> payslip \<Rightarrow> pyfloat \<Rightarrow> step list" where
  "net_pay_section w self d net_pay =
     (let x0 = margin self; x1 = fsub w (fst (page_size self)) (margin self);
          net_pay_pad = fmul w 10 (mm w)
      in sep x0 x1
         @ [down w net_pay_pad,
            draw (SetFont (py ''Helvetica-Bold'') 13),
            draw_label (totals_labels d) (py ''net_pay_label'') x0,
            draw_at (\<lambda>y. DrawRightString x1 y (fmt_currency net_pay (currency_symbol d))),
            down w net_pay_pad]
         @ sep x0 x1
         @ [down w net_pay_pad])"

text \<open>Lines 187 to 233: the approver label, the signature image, the printed name.
  \<open>footer_dict\<close> is \<^verbatim>\<open>footer_cfg or {}\<close>; the next four definitions are the four
  values read from it (lines 189 to 193), with their defaults: two strings, and two
  floats whose conversion can raise. They are read before the footer draws anything.\<close>

definition sig_drawn :: "world \<Rightarrow> pystr option \<Rightarrow> bool" where
  "sig_drawn w path = (case path of None \<Rightarrow> False | Some p \<Rightarrow> image_ok w p)"

definition footer_dict :: "payslip \<Rightarrow> footer" where
  "footer_dict d = get_or (footer_cfg d)
     \<lparr>approved_by_label = None, approved_by_name = None,
      signature_gap_mm = None, name_gap_mm = None\<rparr>"

definition by_label :: "world \<Rightarrow> payslip \<Rightarrow> pystr" where
  "by_label w d = py_str w (get_or (approved_by_label (footer_dict d)) (VStr (py ''Approved By:'')))"

definition by_name :: "world \<Rightarrow> payslip \<Rightarrow> pystr" where
  "by_name w d = strip (py_str w (get_or (approved_by_name (footer_dict d)) (VStr [])))"

definition signature_gap :: "world \<Rightarrow> payslip \<Rightarrow> pyexn + pyfloat" where
  "signature_gap w d = py_float w (get_or (signature_gap_mm (footer_dict d)) (VInt 4))"

definition name_gap :: "world \<Rightarrow> payslip \<Rightarrow> pyexn + pyfloat" where
  "name_gap w d = py_float w (get_or (name_gap_mm (footer_dict d)) (VInt 3))"

text \<open>The footer with the two gaps \<open>sg\<close> and \<open>ng\<close>, finite floats, in millimetres (lines
  195 to 233).\<close>

definition footer_steps :: "world \<Rightarrow> exporter \<Rightarrow> payslip \<Rightarrow> real \<Rightarrow> real \<Rightarrow> step list" where
  "footer_steps w self d sg ng =
     (let x0 = margin self;
          sig_w = fmul w 45 (mm w);
          sig_h = fmul w 18 (mm w);
          sig_x_offset = fmul w 9 (mm w)
      in [draw (SetFont (py ''Helvetica-Bold'') 11),
          draw_at (\<lambda>y. DrawString x0 y (by_label w d)),
          down w (fmul w sg (mm w)),
          try_draw_image w (signature_path d)
            (\<lambda>p y. DrawImage p (fsub w x0 sig_x_offset) (fsub w y sig_h) sig_w sig_h),
          (if sig_drawn w (signature_path d)
           then set_y (\<lambda>y. fsub w (fsub w y sig_h) (fmul w ng (mm w)))
           else down w (fmul w ng (mm w)))]
         @ (if by_name w d \<noteq> []
            then [draw (SetFont (py ''Helvetica-Bold'') 11),
                  draw_at (\<lambda>y. DrawString x0 y (by_name w d)),
                  down w 10]
            else []))"

definition footer_section :: "world \<Rightarrow> exporter \<Rightarrow> payslip \<Rightarrow> step list" where
  "footer_section w self d =
     (case signature_gap w d of
        Inl e \<Rightarrow> [raise e]
      | Inr sg \<Rightarrow>
          (case name_gap w d of
             Inl e \<Rightarrow> [raise e]
           | Inr ng \<Rightarrow>
               if is_finite sg \<and> is_finite ng
               then footer_steps w self d (val sg) (val ng)
               else [raise NonFinite]))"

text \<open>Lines 236 and 237: the generation stamp at a fixed height.\<close>

definition stamp_text :: "world \<Rightarrow> payslip \<Rightarrow> pystr" where
  "stamp_text w d =
     (case generated_at d of None \<Rightarrow> now w
      | Some g \<Rightarrow> if g = [] then now w else g)"

definition stamp :: "world \<Rightarrow> exporter \<Rightarrow> payslip \<Rightarrow> step list" where
  "stamp w self d =
     (let x1 = fsub w (fst (page_size self)) (margin self)
      in [draw (SetFont (py ''Helvetica'') 9),
          draw (DrawRightString x1 (fdiv w (margin self) 2) (py ''Generated: '' @ stamp_text w d))])"

text \<open>\<^verbatim>\<open>ReportLabPayslipExporter.render_pdf\<close>. The result is the resolved output path
  and the final state; the last two canvas calls of a successful render are
  \<^verbatim>\<open>showPage\<close> and \<^verbatim>\<open>save\<close>, and \<^verbatim>\<open>save\<close> is what writes the file.\<close>

definition page_steps :: "world \<Rightarrow> exporter \<Rightarrow> payslip \<Rightarrow> step list" where
  "page_steps w self d =
     (case totals w (earnings d) (deductions d) of (gross, total_deduction, net_pay) \<Rightarrow>
        header w self d
        @ employee_info w self d
        @ earnings_section w self d gross
        @ deductions_section w self d total_deduction
        @ net_pay_section w self d net_pay
        @ footer_section w self d
        @ stamp w self d)"

definition start_state :: "world \<Rightarrow> exporter \<Rightarrow> rstate" where
  "start_state w self =
     \<lparr>canvas_ops = [],
      cur_y = fsub w (snd (page_size self)) (margin self),
      y_hist = [fsub w (snd (page_size self)) (margin self)]\<rparr>"

definition render_pdf :: "world \<Rightarrow> exporter \<Rightarrow> pystr \<Rightarrow> payslip \<Rightarrow> pyexn + (pystr \<times> rstate)" where
  "render_pdf w self output_pdf_path d =
     (let out = resolve w output_pdf_path in
      case mkdir_error w out of Some e \<Rightarrow> Inl e
      | None \<Rightarrow>
         (case run (page_steps w self d) (start_state w self) of Inl e \<Rightarrow> Inl e
          | Inr s \<Rightarrow>
             (case save_error w out of Some e \<Rightarrow> Inl e
              | None \<Rightarrow> Inr (out, s\<lparr>canvas_ops := canvas_ops s @ [ShowPage, Save]\<rparr>))))"

subsection \<open>Asset validation\<close>

record asset_spec =
  asset_path :: pystr
  allowed_extensions :: "pystr list"
  enforce_resolution :: bool
  required_px :: "(int \<times> int) option"
  asset_label :: pystr

text \<open>\<^verbatim>\<open>Path.suffix\<close> (the last dot of the final path component, unless it is its
  first or last character) and \<^verbatim>\<open>str.lower\<close> on the letters A to Z.\<close>

definition path_name :: "pystr \<Rightarrow> pystr" where
  "path_name p = rev (takeWhile (\<lambda>c. c \<noteq> 47) (rev p))"

definition path_suffix :: "pystr \<Rightarrow> pystr" where
  "path_suffix p =
     (let n = path_name p; t = takeWhile (\<lambda>c. c \<noteq> 46) (rev n)
      in if 46 \<notin> set n \<or> t = [] \<or> length t + 1 = length n then [] else 46 # rev t)"

definition lower_ascii :: "pystr \<Rightarrow> pystr" where
  "lower_ascii s = map (\<lambda>c. if 65 \<le> c \<and> c \<le> 90 then c + 32 else c) s"

text \<open>The \<^verbatim>\<open>repr\<close> of a list of plain strings.\<close>

fun join_comma :: "pystr list \<Rightarrow> pystr" where
  "join_comma [] = []"
| "join_comma [p] = p"
| "join_comma (p # q # ps) = p @ py '', '' @ join_comma (q # ps)"

definition repr_list :: "pystr list \<Rightarrow> pystr" where
  "repr_list xs = py ''['' @ join_comma (map (\<lambda>x. [39] @ x @ [39]) xs) @ py '']''"

definition validate_asset :: "world \<Rightarrow> asset_spec \<Rightarrow> pyexn + unit" where
  "validate_asset w spec =
     (let p = resolve w (asset_path spec) in
      if \<not> path_exists w p
      then Inl (FileNotFoundError
             (py ''Missing required asset '' @ [39] @ asset_label spec @ [39] @ py '': '' @ p))
      else
        let ext = lower_ascii (path_suffix p) in
        if allowed_extensions spec \<noteq> [] \<and> ext \<notin> set (map lower_ascii (allowed_extensions spec))
        then Inl (ValueError
               (py ''Asset '' @ [39] @ asset_label spec @ [39] @ py '' has invalid extension ''
                @ [39] @ ext @ [39] @ py ''. Allowed: '' @ repr_list (sort (allowed_extensions spec))))
        else if enforce_resolution spec
        then (case required_px spec of
                None \<Rightarrow> Inl (ValueError
                   (py ''Asset '' @ [39] @ asset_label spec @ [39]
                    @ py '' enforce_resolution=True but required_px not set''))
              | Some (w_req, h_req) \<Rightarrow>
                  (case image_size w p of
                     Inl e \<Rightarrow> Inl e
                   | Inr (iw, ih) \<Rightarrow>
                       if (int iw, int ih) \<noteq> (w_req, h_req)
                       then Inl (ValueError
                          (py ''Asset '' @ [39] @ asset_label spec @ [39] @ py '' resolution is ''
                           @ digits iw @ py ''x'' @ digits ih @ py ''px. Required: ''
                           @ str_int w_req @ py ''x'' @ str_int h_req @ py ''px''))
                       else Inr ()))
        else Inr ())"

definition validate_branding_assets ::
  "world \<Rightarrow> pystr \<Rightarrow> pystr \<Rightarrow> pystr list \<Rightarrow> bool \<Rightarrow> (int \<times> int) option \<Rightarrow> (int \<times> int) option
     \<Rightarrow> pyexn + unit" where
  "validate_branding_assets w logo signature exts enforce logo_px signature_px =
     (case validate_asset w
             \<lparr>asset_path = logo, allowed_extensions = exts, enforce_resolution = enforce,
              required_px = logo_px, asset_label = py ''logo''\<rparr> of
        Inl e \<Rightarrow> Inl e
      | Inr _ \<Rightarrow>
          validate_asset w
             \<lparr>asset_path = signature, allowed_extensions = exts, enforce_resolution = enforce,
              required_px = signature_px, asset_label = py ''signature''\<rparr>)"

subsection \<open>The batch driver\<close>

record employee_row =
  emp_ref :: pystr
  emp_name :: pystr
  emp_designation :: pystr
  emp_department :: pystr
  emp_email :: pystr
  emp_raw :: "pystr \<rightharpoonup> cell"

record field_cfg =
  field_label :: "pystr option"
  field_column :: "pystr option"

text \<open>What \<^verbatim>\<open>main\<close> reads from the settings, the resolved period and the output
  directory. \<open>cfg_logo_path\<close> and \<open>cfg_signature_path\<close> are the paths already joined with
  the project root.\<close>

record settings =
  cfg_logo_path :: pystr
  cfg_signature_path :: pystr
  cfg_allowed_extensions :: "pystr list"
  cfg_enforce_resolution :: bool
  cfg_logo_required_px :: "(int \<times> int) option"
  cfg_signature_required_px :: "(int \<times> int) option"
  earnings_cfg :: "field_cfg list"
  deductions_cfg :: "field_cfg list"
  cfg_line1 :: pystr
  cfg_line2 :: pystr
  cfg_currency_symbol :: pystr
  cfg_footer :: "footer option"
  cfg_totals_labels :: "pystr \<rightharpoonup> pystr"
  fail_fast :: bool
  pdf_dir :: pystr
  period_id :: pystr
  period_text :: pystr

record manifest_row =
  employee_ref :: pystr
  row_name :: pystr
  row_email :: pystr
  row_period_id :: pystr
  row_period_display :: pystr
  pdf_path :: pystr
  gross_income :: pystr
  total_deductions :: pystr
  net_pay :: pystr
  status :: pystr

text \<open>\<^verbatim>\<open>_safe_float\<close>: \<^verbatim>\<open>0.0\<close> for \<^verbatim>\<open>None\<close>, for a blank string and for whatever
  \<^verbatim>\<open>float()\<close> raises on; otherwise what \<^verbatim>\<open>float()\<close> returns, which for a string
  such as \<^verbatim>\<open>"inf"\<close>, \<^verbatim>\<open>"nan"\<close> or \<^verbatim>\<open>"-0.0"\<close> is not an ordinary number.\<close>

definition safe_float :: "world \<Rightarrow> cell \<Rightarrow> pyfloat" where
  "safe_float w v =
     (case v of
        CNone \<Rightarrow> Fin 0
      | CStr t \<Rightarrow> if strip t = [] then Fin 0
                  else (case parse_float w t of None \<Rightarrow> Fin 0 | Some x \<Rightarrow> x)
      | CNum x \<Rightarrow> x
      | COther \<Rightarrow> Fin 0)"

fun build_line_items :: "world \<Rightarrow> employee_row \<Rightarrow> field_cfg list \<Rightarrow> line_item list" where
  "build_line_items w emp [] = []"
| "build_line_items w emp (f # fs) =
     (let lab = strip (get_or (field_label f) []);
          col = strip (get_or (field_column f) [])
      in if lab = [] \<or> col = [] then build_line_items w emp fs
         else \<lparr>label = lab, amount = safe_float w (get_or (emp_raw emp col) CNone)\<rparr>
              # build_line_items w emp fs)"

text \<open>\<^verbatim>\<open>totals_labels.setdefault(k, k.replace("_", " ").upper())\<close> for the three keys.\<close>

definition setdefault :: "('k \<rightharpoonup> 'v) \<Rightarrow> 'k \<Rightarrow> 'v \<Rightarrow> ('k \<rightharpoonup> 'v)" where
  "setdefault m k v = (case m k of None \<Rightarrow> m(k \<mapsto> v) | Some _ \<Rightarrow> m)"

definition default_labels :: "(pystr \<rightharpoonup> pystr) \<Rightarrow> (pystr \<rightharpoonup> pystr)" where
  "default_labels m =
     setdefault (setdefault (setdefault m
       (py ''gross_income_label'') (py ''GROSS INCOME LABEL''))
       (py ''total_deduction_label'') (py ''TOTAL DEDUCTION LABEL''))
       (py ''net_pay_label'') (py ''NET PAY LABEL'')"

text \<open>\<^verbatim>\<open>pdf_dir / filename\<close> on a POSIX system.\<close>

definition path_join :: "pystr \<Rightarrow> pystr \<Rightarrow> pystr" where
  "path_join a b = (if b \<noteq> [] \<and> hd b = 47 then b else a @ [47] @ b)"

definition out_pdf_path :: "settings \<Rightarrow> employee_row \<Rightarrow> pystr" where
  "out_pdf_path cfg emp =
     (let safe_name = replace_char 32 95 (sanitise_filename_part (Some (emp_name emp)));
          filename = emp_ref emp @ py ''_'' @ safe_name @ py ''_'' @ period_id cfg @ py ''.pdf''
      in path_join (pdf_dir cfg) filename)"

definition payslip_of :: "world \<Rightarrow> settings \<Rightarrow> employee_row \<Rightarrow> payslip" where
  "payslip_of w cfg emp =
     \<lparr>company_line1 = cfg_line1 cfg,
      company_line2 = cfg_line2 cfg,
      period_display = period_text cfg,
      employee = [py ''ref'' \<mapsto> emp_ref emp, py ''name'' \<mapsto> emp_name emp,
                  py ''designation'' \<mapsto> emp_designation emp,
                  py ''department'' \<mapsto> emp_department emp],
      earnings = build_line_items w emp (earnings_cfg cfg),
      deductions = build_line_items w emp (deductions_cfg cfg),
      totals_labels = default_labels (cfg_totals_labels cfg),
      logo_path = Some (cfg_logo_path cfg),
      signature_path = Some (cfg_signature_path cfg),
      currency_symbol = Some (cfg_currency_symbol cfg),
      footer_cfg = cfg_footer cfg,
      generated_at = None\<rparr>"

text \<open>The body of the \<^verbatim>\<open>try\<close> of the loop (lines 146 to 192): the written file and the
  manifest row of a generated payslip, or the exception.\<close>

definition try_employee ::
  "world \<Rightarrow> exporter \<Rightarrow> settings \<Rightarrow> employee_row \<Rightarrow> pyexn + ((pystr \<times> op list) \<times> manifest_row)" where
  "try_employee w ex cfg emp =
     (let d = payslip_of w cfg emp;
          out_pdf = out_pdf_path cfg emp
      in case render_pdf w ex out_pdf d of
           Inl e \<Rightarrow> Inl e
         | Inr (p, s) \<Rightarrow>
             let gross = py_sum w (map amount (earnings d));
                 total_ded = py_sum w (map amount (deductions d));
                 net = pf_sub w gross total_ded
             in Inr ((p, canvas_ops s),
                  \<lparr>employee_ref = emp_ref emp, row_name = emp_name emp, row_email = emp_email emp,
                   row_period_id = period_id cfg, row_period_display = period_text cfg,
                   pdf_path = resolve w out_pdf,
                   gross_income = format_2f False gross,
                   total_deductions = format_2f False total_ded,
                   net_pay = format_2f False net,
                   status = py ''generated''\<rparr>))"

text \<open>The \<^verbatim>\<open>except Exception as e\<close> branch (lines 194 to 209).\<close>

definition error_row :: "settings \<Rightarrow> employee_row \<Rightarrow> pyexn \<Rightarrow> manifest_row" where
  "error_row cfg emp e =
     \<lparr>employee_ref = emp_ref emp, row_name = emp_name emp, row_email = emp_email emp,
      row_period_id = period_id cfg, row_period_display = period_text cfg,
      pdf_path = [], gross_income = [], total_deductions = [], net_pay = [],
      status = py ''error: '' @ exn_str e\<rparr>"

text \<open>The loop over the employees: the manifest rows collected so far, the PDF files
  written so far, and the exception that left the loop, if one did.\<close>

record batch =
  manifest_rows :: "manifest_row list"
  pdf_files :: "(pystr \<times> op list) list"

fun batch_loop ::
  "world \<Rightarrow> exporter \<Rightarrow> settings \<Rightarrow> employee_row list \<Rightarrow> batch \<Rightarrow> batch \<times> pyexn option" where
  "batch_loop w ex cfg [] b = (b, None)"
| "batch_loop w ex cfg (emp # emps) b =
     (case try_employee w ex cfg emp of
        Inr (file, row) \<Rightarrow>
          batch_loop w ex cfg emps
            (b\<lparr>manifest_rows := manifest_rows b @ [row], pdf_files := pdf_files b @ [file]\<rparr>)
      | Inl e \<Rightarrow>
          (let b' = b\<lparr>manifest_rows := manifest_rows b @ [error_row cfg emp e]\<rparr>
           in if fail_fast cfg then (b', Some e) else batch_loop w ex cfg emps b'))"

text \<open>\<^verbatim>\<open>main\<close> from the validation of the branding assets (line 91) to the writing of
  the manifest (line 217). The settings, the period and the logging are set up before
  and are taken as given; \<open>loaded\<close> is what \<^verbatim>\<open>load_employee_payroll_rows\<close> returns or
  raises. The validation is called once, before the employees are loaded and outside
  the \<^verbatim>\<open>try\<close> of the loop. The result: the exception that ended the run, if any; the
  manifest written, if it was; the PDF files on disk.\<close>

record run_result =
  raised :: "pyexn option"
  manifest_file :: "manifest_row list option"
  written_pdfs :: "(pystr \<times> op list) list"

definition main :: "world \<Rightarrow> settings \<Rightarrow> pyexn + employee_row list \<Rightarrow> run_result" where
  "main w cfg loaded =
     (case validate_branding_assets w (cfg_logo_path cfg) (cfg_signature_path cfg)
             (cfg_allowed_extensions cfg) (cfg_enforce_resolution cfg)
             (cfg_logo_required_px cfg) (cfg_signature_required_px cfg) of
        Inl e \<Rightarrow> \<lparr>raised = Some e, manifest_file = None, written_pdfs = []\<rparr>
      | Inr _ \<Rightarrow>
          (case loaded of
             Inl e \<Rightarrow> \<lparr>raised = Some e, manifest_file = None, written_pdfs = []\<rparr>
           | Inr employees \<Rightarrow>
               (case summary_dir_error w of
                  Some e \<Rightarrow> \<lparr>raised = Some e, manifest_file = None, written_pdfs = []\<rparr>
                | None \<Rightarrow>
                    (case batch_loop w (default_exporter w) cfg employees
                            \<lparr>manifest_rows = [], pdf_files = []\<rparr> of
                       (b, Some e) \<Rightarrow>
                         \<lparr>raised = Some e, manifest_file = None, written_pdfs = pdf_files b\<rparr>
                     | (b, None) \<Rightarrow>
                         (case manifest_error w of
                            Some e \<Rightarrow>
                              \<lparr>raised = Some e, manifest_file = None, written_pdfs = pdf_files b\<rparr>
                          | None \<Rightarrow>
                              \<lparr>raised = None, manifest_file = Some (manifest_rows b),
                               written_pdfs = pdf_files b\<rparr>)))))"

subsection \<open>Observations on a rendered page\<close>

text \<open>What a reader sees of the canvas calls: the strings with their alignment and the
  images, in drawing order; the height at which a left-aligned string was drawn; the
  canvas calls and the cursor history of a result, empty for an exception.\<close>

datatype align = Left | Centre | Right

datatype item = Text align pystr | Image pystr

fun content_of :: "op \<Rightarrow> item list" where
  "content_of (DrawString x y t) = [Text Left t]"
| "content_of (DrawCentredString x y t) = [Text Centre t]"
| "content_of (DrawRightString x y t) = [Text Right t]"
| "content_of (DrawImage p x y bw bh) = [Image p]"
| "content_of c = []"

definition content :: "op list \<Rightarrow> item list" where
  "content cs = concat (map content_of cs)"




definition page_ops :: "pyexn + (pystr \<times> rstate) \<Rightarrow> op list" where
  "page_ops r = (case r of Inl e \<Rightarrow> [] | Inr (out, s) \<Rightarrow> canvas_ops s)"

definition page_hist :: "pyexn + (pystr \<times> rstate) \<Rightarrow> real list" where
  "page_hist r = (case r of Inl e \<Rightarrow> [] | Inr (out, s) \<Rightarrow> y_hist s)"

definition ran_ops :: "pyexn + rstate \<Rightarrow> op list" where
  "ran_ops r = (case r of Inl e \<Rightarrow> [] | Inr s \<Rightarrow> canvas_ops s)"

definition ran_hist :: "pyexn + rstate \<Rightarrow> real list" where
  "ran_hist r = (case r of Inl e \<Rightarrow> [] | Inr s \<Rightarrow> y_hist s)"

text \<open>The strings and images of a payslip, section by section, as the sections of
  \<open>render_pdf\<close> draw them.\<close>

definition money_rows :: "pystr option \<Rightarrow> line_item list \<Rightarrow> item list" where
  "money_rows symbol items =
     concat (map (\<lambda>it. [Text Left (label it), Text Right (fmt_currency (amount it) symbol)]) items)"

definition shown_image :: "world \<Rightarrow> pystr option \<Rightarrow> item list" where
  "shown_image w path =
     (case path of None \<Rightarrow> [] | Some p \<Rightarrow> if image_ok w p then [Image p] else [])"

definition page_content :: "world \<Rightarrow> payslip \<Rightarrow> item list" where
  "page_content w d =
     (case totals w (earnings d) (deductions d) of (gross, total_deduction, net) \<Rightarrow>
        shown_image w (logo_path d)
        @ [Text Centre (company_line1 d), Text Centre (company_line2 d),
           Text Centre (period_display d)]
        @ [Text Left (py ''EMPLOYEE REFERENCE NO''), Text Left (get_or (employee d (py ''ref'')) []),
           Text Left (py ''NAME''), Text Left (get_or (employee d (py ''name'')) []),
           Text Left (py ''DESIGNATION''), Text Left (get_or (employee d (py ''designation'')) []),
           Text Left (py ''DEPARTMENT''), Text Left (get_or (employee d (py ''department'')) []),
           Text Left (py ''MONTH''), Text Left (period_display d)]
        @ [Text Left (py ''EARNINGS:'')]
        @ money_rows (currency_symbol d) (earnings d)
        @ [Text Left (get_or (totals_labels d (py ''gross_income_label'')) []),
           Text Right (fmt_currency gross (currency_symbol d))]
        @ [Text Left (py ''DEDUCTIONS:'')]
        @ money_rows (currency_symbol d) (deductions d)
        @ [Text Left (get_or (totals_labels d (py ''total_deduction_label'')) []),
           Text Right (fmt_currency total_deduction (currency_symbol d))]
        @ [Text Left (get_or (totals_labels d (py ''net_pay_label'')) []),
           Text Right (fmt_currency net (currency_symbol d))]
        @ [Text Left (by_label w d)]
        @ shown_image w (signature_path d)
        @ (if by_name w d \<noteq> [] then [Text Left (by_name w d)] else [])
        @ [Text Right (py ''Generated: '' @ stamp_text w d)])"

text \<open>The cursor on entry to the footer and at the end of a render, as functions of the
  page geometry, the numbers of earnings and deductions rows, the two footer gaps,
  whether the signature was drawn and whether a name is printed.\<close>

definition footer_cursor :: "world \<Rightarrow> exporter \<Rightarrow> nat \<Rightarrow> nat \<Rightarrow> real" where
  "footer_cursor w self n_earnings n_deductions =
     (let dn = (\<lambda>k y. fsub w y k);
          m = (\<lambda>k. fmul w k (mm w));
          row = dn (line_gap self);
          y0 = fsub w (snd (page_size self)) (margin self);
          y1 = dn (m 10) (dn (m 22) y0);
          y2 = dn (m 12) (dn (m 2) (row (row (row (row (row y1))))));
          y3 = dn (m 12) (dn (m 6) (row ((row ^^ n_earnings) (dn 20 y2))));
          y4 = row ((row ^^ n_deductions) (dn 20 y3))
      in dn (m 10) (dn (m 10) (dn (m 10) y4)))"

definition final_cursor ::
  "world \<Rightarrow> exporter \<Rightarrow> nat \<Rightarrow> nat \<Rightarrow> real \<Rightarrow> real \<Rightarrow> bool \<Rightarrow> bool \<Rightarrow> real" where
  "final_cursor w self n_earnings n_deductions sig_gap nm_gap drawn named =
     (let m = (\<lambda>k. fmul w k (mm w));
          y5 = footer_cursor w self n_earnings n_deductions;
          y6 = fsub w y5 (m sig_gap);
          y7 = (if drawn then fsub w (fsub w y6 (m 18)) (m nm_gap) else fsub w y6 (m nm_gap))
      in if named then fsub w y7 10 else y7)"

fun is_text :: "item \<Rightarrow> bool" where
  "is_text (Text a t) = True"
| "is_text (Image p) = False"

text \<open>The invariant of the cursor: its history starts at \<open>start\<close>, ends at the current
  value, never increases, and the current value is a float. \<open>keeps P f\<close> says that a
  step preserves \<open>P\<close> whenever it returns.\<close>

definition cursor_inv :: "world \<Rightarrow> real \<Rightarrow> rstate \<Rightarrow> bool" where
  "cursor_inv w start s =
     (y_hist s \<noteq> [] \<and> hd (y_hist s) = start \<and> last (y_hist s) = cur_y s
      \<and> sorted_wrt (\<ge>) (y_hist s) \<and> rnd w (cur_y s) = cur_y s)"

definition keeps :: "(rstate \<Rightarrow> bool) \<Rightarrow> step \<Rightarrow> bool" where
  "keeps P f = (\<forall>s s'. P s \<longrightarrow> f s = Inr s' \<longrightarrow> P s')"

subsection \<open>Notions for the sanitiser\<close>

text \<open>A string without two spaces in a row; a non-empty string without whitespace; the
  characters the sanitiser replaces.\<close>

fun no_double_space :: "pystr \<Rightarrow> bool" where
  "no_double_space (a # b # cs) = (\<not> (a = 32 \<and> b = 32) \<and> no_double_space (b # cs))"
| "no_double_space cs = True"

definition word :: "pystr \<Rightarrow> bool" where
  "word p = (p \<noteq> [] \<and> (\<forall>c \<in> set p. \<not> is_space c))"

definition forbidden :: "nat set" where
  "forbidden = {47, 92, 58, 42, 63, 34, 60, 62, 124, 10, 13, 9}"

subsection \<open>Observations on a run\<close>

text \<open>The rows of the manifest a run has written, none when no manifest was written; the
  PDF file the loop writes for an employee, if it writes one; a string that ends with a
  point and two digits. \<open>recorded w cfg emp row\<close> says what the manifest row of an
  employee has to be, in terms of the render of that employee's payslip: the identity
  columns of the employee, and either the status \<^verbatim>\<open>generated\<close> with the resolved
  output path and the three totals of the payslip in the format \<^verbatim>\<open>.2f\<close>, or the status
  \<^verbatim>\<open>error: \<close> followed by the text of the exception, with the four other columns
  empty. It says nothing of the status of a render that ends with the marker
  \<open>NonFinite\<close>.\<close>

definition recorded_rows :: "run_result \<Rightarrow> manifest_row list" where
  "recorded_rows r = (case manifest_file r of None \<Rightarrow> [] | Some rows \<Rightarrow> rows)"




subsection \<open>A sample run\<close>

text \<open>A world with exact arithmetic and reportlab's \<^verbatim>\<open>mm\<close> of \<open>72 / 25.4\<close> points, in
  which no image can be decoded, one output file cannot be written and \<^verbatim>\<open>inf\<close> is the
  only text that \<^verbatim>\<open>float()\<close> converts (no float is configured in what follows, so
  \<open>float_repr\<close> is never used); and the payslip of the specification's end-to-end
  scenario, without a signature path and with an approver's name.\<close>

definition sample_world :: world where
  "sample_world =
     \<lparr>rnd = (\<lambda>x. x), overflow = (\<lambda>r. False),
      mm = 360 / 127, now = py ''2026-01-31 09:00:00'',
      image_ok = (\<lambda>p. False), mkdir_error = (\<lambda>p. None),
      save_error = (\<lambda>p. if p = py ''out/E2_Bo_2026-01.pdf''
                          then Some (OSError (py ''disk full'')) else None),
      path_exists = (\<lambda>p. True), resolve = (\<lambda>p. p),
      image_size = (\<lambda>p. Inr (0, 0)),
      parse_float = (\<lambda>t. if t = py ''inf'' then Some PosInf else None),
      float_repr = (\<lambda>x. []),
      summary_dir_error = None, manifest_error = None\<rparr>"

definition sample_payslip :: payslip where
  "sample_payslip =
     \<lparr>company_line1 = py ''ACME'', company_line2 = py ''PAYSLIP'',
      period_display = py ''January 2026'',
      employee = [py ''ref'' \<mapsto> py ''E1'', py ''name'' \<mapsto> py ''Ada''],
      earnings = [\<lparr>label = py ''Basic'', amount = Fin 50000\<rparr>,
                  \<lparr>label = py ''Allowance'', amount = Fin 10000\<rparr>],
      deductions = [\<lparr>label = py ''Tax'', amount = Fin 5000\<rparr>],
      totals_labels = [py ''gross_income_label'' \<mapsto> py ''GROSS'',
                       py ''total_deduction_label'' \<mapsto> py ''DEDUCTED'',
                       py ''net_pay_label'' \<mapsto> py ''NET''],
      logo_path = Some (py ''logo.png''),
      signature_path = None,
      currency_symbol = Some [163],
      footer_cfg = Some \<lparr>approved_by_label = None,
                          approved_by_name = Some (VStr (py ''A. Boss'')),
                          signature_gap_mm = None, name_gap_mm = None\<rparr>,
      generated_at = None\<rparr>"


text \<open>The settings and the two employees of a run: the first payslip is the sample
  payslip's data, the second is the one whose file cannot be written in the sample
  world. A third employee has the text \<^verbatim>\<open>inf\<close> in a salary cell. In \<open>no_logo_world\<close>
  the logo file does not exist.\<close>

definition sample_settings :: settings where
  "sample_settings =
     \<lparr>cfg_logo_path = py ''assets/logo.png'',
      cfg_signature_path = py ''assets/sign.png'',
      cfg_allowed_extensions = [py ''.png'', py ''.jpg'', py ''.jpeg''],
      cfg_enforce_resolution = False,
      cfg_logo_required_px = None,
      cfg_signature_required_px = None,
      earnings_cfg = [\<lparr>field_label = Some (py ''Basic''), field_column = Some (py ''Basic Salary'')\<rparr>,
                      \<lparr>field_label = Some (py ''Allowance''), field_column = Some (py ''Allowance'')\<rparr>],
      deductions_cfg = [\<lparr>field_label = Some (py ''Tax''), field_column = Some (py ''Tax'')\<rparr>],
      cfg_line1 = py ''ACME'',
      cfg_line2 = py ''PAYSLIP'',
      cfg_currency_symbol = [163],
      cfg_footer = None,
      cfg_totals_labels = Map.empty,
      fail_fast = False,
      pdf_dir = py ''out'',
      period_id = py ''2026-01'',
      period_text = py ''January 2026''\<rparr>"

definition ada :: employee_row where
  "ada =
     \<lparr>emp_ref = py ''E1'', emp_name = py ''Ada'', emp_designation = py ''Engineer'',
      emp_department = py ''R and D'', emp_email = py ''ada@example.org'',
      emp_raw = [py ''Basic Salary'' \<mapsto> CNum (Fin 50000), py ''Allowance'' \<mapsto> CNum (Fin 10000),
                 py ''Tax'' \<mapsto> CNum (Fin 5000)]\<rparr>"

definition bo :: employee_row where
  "bo =
     \<lparr>emp_ref = py ''E2'', emp_name = py ''Bo'', emp_designation = py ''Clerk'',
      emp_department = py ''Office'', emp_email = py ''bo@example.org'',
      emp_raw = [py ''Basic Salary'' \<mapsto> CNum (Fin 30000), py ''Tax'' \<mapsto> CStr (py ''n/a'')]\<rparr>"

definition sample_employees :: "employee_row list" where
  "sample_employees = [ada, bo]"


definition no_logo_world :: world where
  "no_logo_world = sample_world\<lparr>path_exists := (\<lambda>p. p \<noteq> py ''assets/logo.png'')\<rparr>"



section \<open>What the currency formatter prints\<close>

lemma digits_all: "list_all is_digit (digits n)"
  by (induction n rule: digits.induct) (subst digits.simps, auto simp: digit_char_def is_digit_def[abs_def])

lemma digits_nonempty: "digits n \<noteq> []"
  by (subst digits.simps) simp

lemma from_digits_snoc: "from_digits (xs @ [c]) = 10 * from_digits xs + (c - 48)"
  by (simp add: from_digits_def)

lemma from_digits_digits: "from_digits (digits n) = n"
proof (induction n rule: digits.induct)
  case (1 n)
  show ?case
  proof (cases "n < 10")
    case True
    then show ?thesis by (subst digits.simps) (simp add: from_digits_def digit_char_def)
  next
    case False
    with 1 show ?thesis by (subst digits.simps) (simp add: from_digits_snoc digit_char_def)
  qed
qed

lemma group3_filter: "list_all is_digit ds \<Longrightarrow> filter is_digit (group3 ds) = ds"
proof (induction ds rule: group3.induct)
  case (1 ds)
  show ?case
  proof (cases "length ds \<le> 3")
    case True
    with 1 show ?thesis by (subst group3.simps) (simp add: list_all_iff filter_id_conv)
  next
    case False
    have a: "list_all is_digit (take (length ds - 3) ds)" "list_all is_digit (drop (length ds - 3) ds)"
      using 1(2) by (auto simp: list_all_iff dest: in_set_takeD in_set_dropD)
    have "filter is_digit (group3 ds)
        = filter is_digit (group3 (take (length ds - 3) ds)) @ filter is_digit (drop (length ds - 3) ds)"
      using False by (subst group3.simps) (simp add: is_digit_def)
    also have "\<dots> = take (length ds - 3) ds @ drop (length ds - 3) ds"
      using 1(1)[OF False a(1)] a(2) by (simp add: list_all_iff filter_id_conv)
    finally show ?thesis by simp
  qed
qed

lemma group3_grouped: "list_all is_digit ds \<Longrightarrow> ds \<noteq> [] \<Longrightarrow> grouped3 (group3 ds)"
proof (induction ds rule: group3.induct)
  case (1 ds)
  show ?case
  proof (cases "length ds \<le> 3")
    case True
    with 1 show ?thesis by (subst group3.simps, subst grouped3.simps) simp
  next
    case False
    define g where "g = group3 (take (length ds - 3) ds)"
    define t where "t = drop (length ds - 3) ds"
    have lt: "length t = 3" using False by (simp add: t_def)
    have dt: "list_all is_digit t"
      using 1(2) by (auto simp: t_def list_all_iff dest: in_set_dropD)
    have "list_all is_digit (take (length ds - 3) ds)"
      using 1(2) by (auto simp: list_all_iff dest: in_set_takeD)
    moreover have "take (length ds - 3) ds \<noteq> []" using False by auto
    ultimately have gg: "grouped3 g" unfolding g_def using 1(1)[OF False] by simp
    have eq: "group3 ds = g @ 44 # t"
      using False by (subst group3.simps) (simp add: g_def t_def)
    show ?thesis
      unfolding eq using lt dt gg
      by (subst grouped3.simps) (simp add: Let_def nth_append)
  qed
qed

lemma set_group3: "set (group3 ds) \<subseteq> insert 44 (set ds)"
proof (induction ds rule: group3.induct)
  case (1 ds)
  show ?case
  proof (cases "length ds \<le> 3")
    case True
    then show ?thesis by (subst group3.simps) auto
  next
    case False
    have "set (take (length ds - 3) ds) \<subseteq> set ds" "set (drop (length ds - 3) ds) \<subseteq> set ds"
      by (auto dest: in_set_takeD in_set_dropD)
    with 1[OF False] False show ?thesis by (subst group3.simps) auto
  qed
qed

lemma rhe_cases:
  obtains (down) "x - of_int \<lfloor>x\<rfloor> < 1/2" "round_half_even x = \<lfloor>x\<rfloor>"
  | (up) "1/2 < x - of_int \<lfloor>x\<rfloor>" "round_half_even x = \<lfloor>x\<rfloor> + 1"
  | (tie_even) "x - of_int \<lfloor>x\<rfloor> = 1/2" "even \<lfloor>x\<rfloor>" "round_half_even x = \<lfloor>x\<rfloor>"
  | (tie_odd) "x - of_int \<lfloor>x\<rfloor> = 1/2" "odd \<lfloor>x\<rfloor>" "round_half_even x = \<lfloor>x\<rfloor> + 1"
  unfolding round_half_even_def Let_def
  by (cases "x - of_int \<lfloor>x\<rfloor> < 1/2"; cases "1/2 < x - of_int \<lfloor>x\<rfloor>"; cases "even \<lfloor>x\<rfloor>") simp_all

lemma floor_bounds: "of_int \<lfloor>x\<rfloor> \<le> x" "x < of_int \<lfloor>x\<rfloor> + 1" for x :: real
  by linarith+

lemma rhe_nonneg: "0 \<le> x \<Longrightarrow> 0 \<le> round_half_even x"
proof -
  assume "0 \<le> x"
  then have "0 \<le> \<lfloor>x\<rfloor>" by simp
  then show ?thesis by (cases x rule: rhe_cases) simp_all
qed

lemma rhe_near: "\<bar>of_int (round_half_even x) - x\<bar> \<le> 1/2"
  using floor_bounds[of x] by (cases x rule: rhe_cases) simp_all

lemma rhe_tie_even: "\<bar>of_int (round_half_even x) - x\<bar> = 1/2 \<Longrightarrow> even (round_half_even x)"
  using floor_bounds[of x] by (cases x rule: rhe_cases) simp_all

lemma rhe_not_tie: "\<bar>of_int (round_half_even x) - x\<bar> < 1/2 \<Longrightarrow> round_half_even x = \<lfloor>x + 1/2\<rfloor>"
proof -
  assume a: "\<bar>of_int (round_half_even x) - x\<bar> < 1/2"
  have "of_int (round_half_even x) \<le> x + 1/2" "x + 1/2 < of_int (round_half_even x) + 1"
    using a by linarith+
  then show ?thesis by (simp add: floor_unique)
qed

lemma two_digits: "n mod 100 div 10 \<le> 9" "n mod 10 \<le> 9"
  "100 * (n div 100) + 10 * (n mod 100 div 10) + n mod 10 = n" for n :: nat
proof -
  have "n mod 100 < 10 * 10" by simp
  then have "n mod 100 div 10 < 10" by (rule less_mult_imp_div_less)
  then show "n mod 100 div 10 \<le> 9" by simp
  have "n mod 10 < 10" by simp
  then show "n mod 10 \<le> 9" by simp
  have "n mod 100 mod 10 = n mod 10" by (simp add: mod_mod_cancel)
  then have "10 * (n mod 100 div 10) + n mod 10 = n mod 100"
    using mult_div_mod_eq[of 10 "n mod 100"] by simp
  moreover have "100 * (n div 100) + n mod 100 = n" by simp
  ultimately show "100 * (n div 100) + 10 * (n mod 100 div 10) + n mod 10 = n"
    by linarith
qed

lemma format_fixed_split:
  "format_fixed g x = (if x < 0 then [45] else []) @
      (if g then group3 (digits (nat (round_half_even (\<bar>x\<bar> * 100)) div 100))
            else digits (nat (round_half_even (\<bar>x\<bar> * 100)) div 100)) @ [46] @
      [digit_char (nat (round_half_even (\<bar>x\<bar> * 100)) mod 100 div 10),
       digit_char (nat (round_half_even (\<bar>x\<bar> * 100)) mod 10)]"
  by (simp add: format_fixed_def Let_def)

lemma from_digits_app2:
  "from_digits (xs @ [digit_char a, digit_char b]) = 100 * from_digits xs + 10 * a + b"
  by (simp add: from_digits_def digit_char_def)

lemma filter_digits_format:
  "filter is_digit (format_fixed True x) =
     digits (nat (round_half_even (\<bar>x\<bar> * 100)) div 100) @
      [digit_char (nat (round_half_even (\<bar>x\<bar> * 100)) mod 100 div 10),
       digit_char (nat (round_half_even (\<bar>x\<bar> * 100)) mod 10)]"
proof -
  have d: "is_digit (digit_char (n mod 100 div 10))" "is_digit (digit_char (n mod 10))" for n
    by (simp_all add: is_digit_def digit_char_def two_digits)
  show ?thesis
    unfolding format_fixed_split
    by (simp add: group3_filter digits_all d) (simp add: is_digit_def)
qed

lemma from_digits_format:
  "from_digits (filter is_digit (format_fixed True x)) = nat (round_half_even (\<bar>x\<bar> * 100))"
  unfolding filter_digits_format from_digits_app2 from_digits_digits by (simp add: two_digits)

lemma minus_in_format: "45 \<in> set (format_fixed True x) \<longleftrightarrow> x < 0"
proof -
  have "45 \<notin> set (digits n)" for n
    using digits_all[of n] by (auto simp: list_all_iff is_digit_def)
  then have a: "45 \<notin> set (group3 (digits n))" for n
    using set_group3[of "digits n"] by auto
  show ?thesis
    unfolding format_fixed_split using a
    by (auto simp: digit_char_def)
qed

lemma printed_format:
  "printed_hundredths (format_fixed True x) =
     (if x < 0 then - round_half_even (\<bar>x\<bar> * 100) else round_half_even (\<bar>x\<bar> * 100))"
  using rhe_nonneg[of "\<bar>x\<bar> * 100"]
  by (simp add: printed_hundredths_def minus_in_format from_digits_format)

lemmas fmt_eval =
  fmt_currency_def format_fixed_def round_half_even_def Let_def digits.simps group3.simps digit_char_def

text \<open>
  Claim C2, as stated: for every amount the formatter returns the symbol followed by the
  amount with exactly two fractional digits. It fails for an amount that is not a finite
  number: \<^verbatim>\<open>_safe_float\<close> turns the cell text \<^verbatim>\<open>inf\<close> into the float infinity, and
  the formatter prints it as \<^verbatim>\<open>inf\<close> after the symbol, without a point and without
  digits.
\<close>

theorem fmt_currency_inf_counterexample:
  "safe_float sample_world (CStr (py ''inf'')) = PosInf
   \<and> fmt_currency PosInf (Some [163]) = 163 # py ''inf''
   \<and> 46 \<notin> set (fmt_currency PosInf (Some [163]))
   \<and> \<not> list_ex is_digit (fmt_currency PosInf (Some [163]))"
  by (simp add: safe_float_def sample_world_def strip_def is_space_def fmt_currency_def
        is_digit_def)

text \<open>
  Claim C2, amended. For every finite amount and every symbol, \<open>fmt_currency\<close> returns
  the symbol, then a minus sign when the amount is negative, then the integer digits in
  comma-separated groups of three, a point and exactly two digits, and the digits are the
  amount to the nearest hundredth. The negative zero prints as \<open>-0.00\<close>, the infinities
  as \<open>inf\<close> and \<open>-inf\<close>, and \<^verbatim>\<open>nan\<close> as \<open>nan\<close>, each after the symbol. An absent symbol
  is the empty string. The three examples of the specification evaluate as given;
  \<open>1234567.5\<close> and \<open>0\<close> are doubles, and the double nearest to \<open>-42.1\<close> is
  \<open>-5925048259759309 / 2^47\<close>. The function has no error result.
\<close>

theorem fmt_currency_format:
  "(\<exists>ip fp. fmt_currency (Fin a) symbol
        = symbol_text symbol @ (if a < 0 then py ''-'' else []) @ ip @ py ''.'' @ fp
      \<and> grouped3 ip \<and> length fp = 2 \<and> list_all is_digit fp
      \<and> \<bar>real (from_digits (filter is_digit ip @ fp)) - \<bar>a\<bar> * 100\<bar> \<le> 1/2)
   \<and> fmt_currency NegZero symbol = symbol_text symbol @ py ''-0.00''
   \<and> fmt_currency PosInf symbol = symbol_text symbol @ py ''inf''
   \<and> fmt_currency NegInf symbol = symbol_text symbol @ py ''-inf''
   \<and> fmt_currency NaN symbol = symbol_text symbol @ py ''nan''
   \<and> fmt_currency x None = fmt_currency x (Some [])
   \<and> fmt_currency (Fin 1234567.5) (Some (py ''NGN '')) = py ''NGN 1,234,567.50''
   \<and> fmt_currency (Fin 0) (Some [163]) = 163 # py ''0.00''
   \<and> fmt_currency (Fin (- (5925048259759309 / 2 ^ 47))) (Some (py ''$'')) = py ''$-42.10''"
proof -
  define q where "q = nat (round_half_even (\<bar>a\<bar> * 100))"
  define ip where "ip = group3 (digits (q div 100))"
  define fp where "fp = [digit_char (q mod 100 div 10), digit_char (q mod 10)]"
  have e: "fmt_currency (Fin a) symbol
        = symbol_text symbol @ (if a < 0 then py ''-'' else []) @ ip @ py ''.'' @ fp"
    by (simp add: fmt_currency_def symbol_text_def format_fixed_split ip_def fp_def q_def)
  have g: "grouped3 ip"
    unfolding ip_def by (rule group3_grouped[OF digits_all digits_nonempty])
  have f: "length fp = 2" "list_all is_digit fp"
    by (simp_all add: fp_def is_digit_def digit_char_def two_digits)
  have "from_digits (filter is_digit ip @ fp) = q"
    by (simp add: ip_def group3_filter digits_all fp_def from_digits_app2 from_digits_digits two_digits)
  moreover have "real q = of_int (round_half_even (\<bar>a\<bar> * 100))"
    using rhe_nonneg[of "\<bar>a\<bar> * 100"] by (simp add: q_def)
  ultimately have v: "\<bar>real (from_digits (filter is_digit ip @ fp)) - \<bar>a\<bar> * 100\<bar> \<le> 1/2"
    using rhe_near[of "\<bar>a\<bar> * 100"] by simp
  have z: "fmt_currency NegZero symbol = symbol_text symbol @ py ''-0.00''"
    by (simp add: fmt_eval symbol_text_def)
  have s: "fmt_currency PosInf symbol = symbol_text symbol @ py ''inf''"
    "fmt_currency NegInf symbol = symbol_text symbol @ py ''-inf''"
    "fmt_currency NaN symbol = symbol_text symbol @ py ''nan''"
    by (simp_all add: fmt_currency_def symbol_text_def)
  have n: "fmt_currency x None = fmt_currency x (Some [])"
    by (simp add: fmt_currency_def)
  have x1: "fmt_currency (Fin 1234567.5) (Some (py ''NGN '')) = py ''NGN 1,234,567.50''"
    by (simp add: fmt_eval)
  have x2: "fmt_currency (Fin 0) (Some [163]) = 163 # py ''0.00''"
    by (simp add: fmt_eval)
  have x3: "fmt_currency (Fin (- (5925048259759309 / 2 ^ 47))) (Some (py ''$'')) = py ''$-42.10''"
    by (simp add: fmt_eval)
  have ex: "\<exists>ip fp. fmt_currency (Fin a) symbol
        = symbol_text symbol @ (if a < 0 then py ''-'' else []) @ ip @ py ''.'' @ fp
      \<and> grouped3 ip \<and> length fp = 2 \<and> list_all is_digit fp
      \<and> \<bar>real (from_digits (filter is_digit ip @ fp)) - \<bar>a\<bar> * 100\<bar> \<le> 1/2"
    by (rule exI[of _ ip], rule exI[of _ fp]) (intro conjI e g f v)
  show ?thesis
    by (intro conjI ex z s n x1 x2 x3)
qed

text \<open>
  Claim C3, as stated: an amount with more than two fractional digits is rounded half
  away from zero. It fails at \<open>0.125\<close>, a double exactly halfway between \<open>0.12\<close> and
  \<open>0.13\<close>: the formatter prints \<open>0.12\<close>, half away from zero is \<open>0.13\<close>.
\<close>

theorem fmt_currency_half_away_counterexample:
  "fmt_currency (Fin 0.125) None = py ''0.12'' \<and>
   printed_hundredths (fmt_currency (Fin 0.125) None) = 12 \<and>
   round_half_away (0.125 * 100) = 13"
proof -
  have "fmt_currency (Fin 0.125) None = py ''0.12''"
    by (simp add: fmt_eval)
  moreover have "printed_hundredths (fmt_currency (Fin 0.125) None) = 12"
    by (simp add: printed_hundredths_def fmt_eval is_digit_def from_digits_def)
  moreover have "round_half_away (0.125 * 100) = 13"
    by (simp add: round_half_away_def)
  ultimately show ?thesis by simp
qed

text \<open>
  Claim C3, amended: the formatter prints the hundredth nearest to the amount; when the
  amount is exactly halfway between two hundredths it prints the one whose last digit
  is even; for every other amount the result is the one of rounding half away from zero.
\<close>

theorem fmt_currency_rounding:
  "printed_hundredths (drop (length (symbol_text symbol)) (fmt_currency (Fin a) symbol)) = q \<Longrightarrow>
   \<bar>of_int q - a * 100\<bar> \<le> 1/2 \<and>
   (\<bar>of_int q - a * 100\<bar> = 1/2 \<longrightarrow> even q) \<and>
   (\<bar>of_int q - a * 100\<bar> < 1/2 \<longrightarrow> q = round_half_away (a * 100))"
proof -
  assume "printed_hundredths (drop (length (symbol_text symbol)) (fmt_currency (Fin a) symbol)) = q"
  then have q: "q = (if a < 0 then - round_half_even (\<bar>a\<bar> * 100)
                     else round_half_even (\<bar>a\<bar> * 100))"
    by (simp add: fmt_currency_def symbol_text_def printed_format)
  show ?thesis
  proof (cases "a < 0")
    case True
    let ?x = "- (a * 100)"
    have qx: "q = - round_half_even ?x" using True q by simp
    have e: "\<bar>of_int q - a * 100\<bar> = \<bar>of_int (round_half_even ?x) - ?x\<bar>"
      unfolding qx by simp
    have r: "round_half_away (a * 100) = - \<lfloor>?x + 1/2\<rfloor>"
      using True by (simp add: round_half_away_def mult_less_0_iff)
    show ?thesis
      unfolding e r using rhe_near[of ?x] rhe_tie_even[of ?x] rhe_not_tie[of ?x]
      by (simp add: qx)
  next
    case False
    let ?x = "a * 100"
    have qx: "q = round_half_even ?x" using False q by simp
    have r: "round_half_away ?x = \<lfloor>?x + 1/2\<rfloor>"
      using False by (simp add: round_half_away_def)
    show ?thesis
      unfolding r using rhe_near[of ?x] rhe_tie_even[of ?x] rhe_not_tie[of ?x]
      by (simp add: qx)
  qed
qed

theorem fmt_currency_rounding_witness:
  "printed_hundredths (drop (length (symbol_text None)) (fmt_currency (Fin 0.125) None)) = 12 \<and>
   \<bar>of_int 12 - (0.125 :: real) * 100\<bar> = 1/2 \<and> even (12 :: int)"
proof -
  have h: "printed_hundredths (drop (length (symbol_text None)) (fmt_currency (Fin 0.125) None)) = 12"
    by (simp add: printed_hundredths_def fmt_eval is_digit_def from_digits_def symbol_text_def)
  from fmt_currency_rounding[OF h] h show ?thesis by simp
qed

section \<open>The filename sanitiser\<close>

lemma space_32: "is_space 32"
  by (simp add: is_space_def)

lemma split_ws_words: "list_all word (split_ws t)"
proof (induction t rule: split_ws.induct)
  case 1
  show ?case by simp
next
  case (2 c cs)
  then show ?case by (auto simp: word_def dest: set_takeWhileD)
qed

lemma split_ws_set: "set (concat (split_ws t)) \<subseteq> set t"
proof (induction t rule: split_ws.induct)
  case 1
  show ?case by simp
next
  case (2 c cs)
  then show ?case by (auto dest: set_takeWhileD set_dropWhileD)
qed

lemma join_space_set: "set (join_space ps) \<subseteq> insert 32 (set (concat ps))"
  by (induction ps rule: join_space.induct) auto

lemma split_ws_word_app: "word p \<Longrightarrow> split_ws (p @ 32 # t) = p # split_ws t"
proof -
  assume p: "word p"
  then obtain c p' where e: "p = c # p'" by (cases p) (auto simp: word_def)
  have n: "\<forall>d \<in> set p'. \<not> is_space d" "\<not> is_space c" using p e by (auto simp: word_def)
  have tk: "takeWhile (\<lambda>d. \<not> is_space d) (p' @ 32 # t) = p'"
    using n space_32 by simp
  have dr: "dropWhile (\<lambda>d. \<not> is_space d) (p' @ 32 # t) = 32 # t"
    using n space_32 by simp
  show ?thesis unfolding e using n(2) space_32 by (simp add: tk dr)
qed

lemma split_ws_word: "word p \<Longrightarrow> split_ws p = [p]"
proof -
  assume p: "word p"
  then obtain c p' where e: "p = c # p'" by (cases p) (auto simp: word_def)
  have n: "\<forall>d \<in> set p'. \<not> is_space d" "\<not> is_space c" using p e by (auto simp: word_def)
  have t: "takeWhile (\<lambda>d. \<not> is_space d) p' = p'" and d: "dropWhile (\<lambda>d. \<not> is_space d) p' = []"
    using n by simp_all
  show ?thesis unfolding e using n(2) by (simp add: t d del: dropWhile_eq_Nil_conv takeWhile_eq_all_conv)
qed

lemma split_join: "list_all word ps \<Longrightarrow> split_ws (join_space ps) = ps"
  by (induction ps rule: join_space.induct) (simp_all add: split_ws_word split_ws_word_app)

lemma join_space_ends:
  "list_all word ps \<Longrightarrow> ps \<noteq> [] \<Longrightarrow>
     join_space ps \<noteq> [] \<and> \<not> is_space (hd (join_space ps)) \<and> \<not> is_space (last (join_space ps))"
  by (induction ps rule: join_space.induct) (auto simp: word_def)

lemma strip_id: "t = [] \<or> (\<not> is_space (hd t) \<and> \<not> is_space (last t)) \<Longrightarrow> strip t = t"
proof (cases t)
  case Nil
  then show ?thesis by (simp add: strip_def)
next
  case (Cons c cs)
  assume "t = [] \<or> (\<not> is_space (hd t) \<and> \<not> is_space (last t))"
  with Cons have h: "\<not> is_space (hd t)" "\<not> is_space (last t)" by auto
  have 1: "dropWhile is_space t = t" using h Cons by simp
  obtain x xs where r: "rev t = x # xs" using Cons by (cases "rev t") auto
  have "hd (rev t) = last t" using Cons by (simp add: hd_rev)
  then have "\<not> is_space x" using h r by simp
  then have 2: "dropWhile is_space (rev t) = rev t"
    unfolding r by simp
  show ?thesis by (simp add: strip_def 1 2)
qed

lemma strip_join: "list_all word ps \<Longrightarrow> strip (join_space ps) = join_space ps"
proof (cases ps)
  case Nil
  then show ?thesis by (simp add: strip_def)
next
  case (Cons p ps')
  assume "list_all word ps"
  from join_space_ends[OF this] Cons show ?thesis by (intro strip_id) simp
qed

lemma no_double_word: "32 \<notin> set p \<Longrightarrow> no_double_space p"
  by (induction p rule: no_double_space.induct) auto

lemma no_double_app:
  "32 \<notin> set p \<Longrightarrow> p \<noteq> [] \<Longrightarrow> no_double_space r \<Longrightarrow> r \<noteq> [] \<Longrightarrow> hd r \<noteq> 32
     \<Longrightarrow> no_double_space (p @ 32 # r)"
proof (induction p)
  case Nil
  then show ?case by simp
next
  case (Cons a p)
  show ?case
  proof (cases p)
    case Nil
    obtain x r' where "r = x # r'" using Cons.prems by (cases r) auto
    with Cons.prems Nil show ?thesis by simp
  next
    case (Cons b p')
    then have "no_double_space (p @ 32 # r)" using Cons.IH Cons.prems by simp
    with Cons Cons.prems show ?thesis by simp
  qed
qed

lemma join_no_double: "list_all word ps \<Longrightarrow> no_double_space (join_space ps)"
proof (induction ps rule: join_space.induct)
  case 1
  show ?case by simp
next
  case (2 p)
  then have "32 \<notin> set p" using space_32 by (auto simp: word_def)
  then show ?case by (simp add: no_double_word)
next
  case (3 p q ps)
  then have ih: "no_double_space (join_space (q # ps))" by simp
  have q: "join_space (q # ps) \<noteq> []" "hd (join_space (q # ps)) \<noteq> 32"
    using join_space_ends[of "q # ps"] 3(2) space_32 by auto
  have p: "32 \<notin> set p" "p \<noteq> []" using 3(2) space_32 by (auto simp: word_def)
  from no_double_app[OF p ih q] show ?case by simp
qed

lemma replace_char_set:
  "ch \<noteq> 45 \<Longrightarrow> ch \<notin> set (replace_char ch 45 t)" "set (replace_char ch 45 t) \<subseteq> insert 45 (set t)"
  by (auto simp: replace_char_def)

lemma replace_all_set:
  "45 \<notin> set chs \<Longrightarrow>
     set (foldl (\<lambda>t ch. replace_char ch 45 t) t chs) \<inter> set chs = {} \<and>
     set (foldl (\<lambda>t ch. replace_char ch 45 t) t chs) \<subseteq> insert 45 (set t)"
proof (induction chs arbitrary: t)
  case Nil
  show ?case by auto
next
  case (Cons ch chs)
  let ?t = "replace_char ch 45 t"
  have c: "ch \<noteq> 45" "45 \<notin> set chs" using Cons.prems by auto
  from Cons.IH[OF c(2), of ?t] replace_char_set[of ch t] c(1)
  show ?case by auto
qed

lemma forbidden_set: "set forbidden_chars = forbidden"
  by (simp add: forbidden_chars_def forbidden_def)

lemma replaced_clean:
  "set (foldl (\<lambda>t ch. replace_char ch 45 t) t forbidden_chars) \<inter> forbidden = {}"
proof -
  have "45 \<notin> set forbidden_chars" by (simp add: forbidden_set forbidden_def)
  from replace_all_set[OF this, of t] show ?thesis by (simp add: forbidden_set)
qed

lemma replace_none: "set t \<inter> set chs = {} \<Longrightarrow> foldl (\<lambda>t ch. replace_char ch 45 t) t chs = t"
proof (induction chs)
  case Nil
  show ?case by simp
next
  case (Cons ch chs)
  then have "replace_char ch 45 t = t"
    by (auto simp: replace_char_def intro!: map_idI)
  with Cons show ?case by simp
qed

lemma replace_id:
  "set t \<inter> forbidden = {} \<Longrightarrow> foldl (\<lambda>t ch. replace_char ch 45 t) t forbidden_chars = t"
  by (rule replace_none) (simp add: forbidden_set)

lemma sanitise_words:
  "\<exists>ps. sanitise_filename_part s = join_space ps \<and> list_all word ps \<and> set (concat ps) \<inter> forbidden = {}"
proof -
  define t where "t = foldl (\<lambda>t ch. replace_char ch 45 t) (strip (case s of None \<Rightarrow> [] | Some t \<Rightarrow> t)) forbidden_chars"
  have "sanitise_filename_part s = join_space (split_ws t)"
    by (simp add: sanitise_filename_part_def t_def Let_def)
  moreover have "list_all word (split_ws t)" by (rule split_ws_words)
  moreover have "set (concat (split_ws t)) \<inter> forbidden = {}"
    using split_ws_set[of t] replaced_clean unfolding t_def by blast
  ultimately show ?thesis by blast
qed

text \<open>
  Claim C10. The sanitiser is idempotent, and for every input (every list of code points,
  or \<open>None\<close>) its result contains none of the characters \<^verbatim>\<open>/ \ : * ? " < > |\<close>, no
  newline, carriage return or tab, and no two spaces in a row.
\<close>

theorem sanitise_filename_part_idempotent:
  "sanitise_filename_part (Some (sanitise_filename_part s)) = sanitise_filename_part s
   \<and> set (sanitise_filename_part s) \<inter> {47, 92, 58, 42, 63, 34, 60, 62, 124, 10, 13, 9} = {}
   \<and> no_double_space (sanitise_filename_part s)"
proof -
  obtain ps where r: "sanitise_filename_part s = join_space ps" and w: "list_all word ps"
    and c: "set (concat ps) \<inter> forbidden = {}"
    using sanitise_words by blast
  have "32 \<notin> forbidden" by (simp add: forbidden_def)
  with c join_space_set[of ps] have cl: "set (join_space ps) \<inter> forbidden = {}" by blast
  have "sanitise_filename_part (Some (join_space ps)) = join_space ps"
    by (simp add: sanitise_filename_part_def Let_def strip_join[OF w] replace_id[OF cl] split_join[OF w])
  moreover have "no_double_space (join_space ps)" by (rule join_no_double[OF w])
  ultimately show ?thesis using cl unfolding r forbidden_def by simp
qed

section \<open>Running the steps of a page\<close>

lemma run_append:
  "run (fs @ gs) s = (case run fs s of Inl e \<Rightarrow> Inl e | Inr t \<Rightarrow> run gs t)"
  by (induction fs arbitrary: s) (auto split: sum.splits)

lemma run_appendE:
  assumes "run (fs @ gs) s = Inr s'"
  obtains t where "run fs s = Inr t" "run gs t = Inr s'"
  using assms by (auto simp: run_append split: sum.splits)

lemma run_draw: "run (draw c # fs) s = run fs (s\<lparr>canvas_ops := canvas_ops s @ [c]\<rparr>)"
  by (simp add: draw_def)

lemma run_draw_at: "run (draw_at g # fs) s = run fs (s\<lparr>canvas_ops := canvas_ops s @ [g (cur_y s)]\<rparr>)"
  by (simp add: draw_at_def draw_def)

lemma run_set_y:
  "run (set_y g # fs) s = run fs (s\<lparr>cur_y := g (cur_y s), y_hist := y_hist s @ [g (cur_y s)]\<rparr>)"
  by (simp add: set_y_def Let_def)

lemma run_down:
  "run (down w k # fs) s
     = run fs (s\<lparr>cur_y := fsub w (cur_y s) k, y_hist := y_hist s @ [fsub w (cur_y s) k]\<rparr>)"
  unfolding down_def by (rule run_set_y)

lemma run_try_draw_image:
  "run (try_draw_image w path g # fs) s =
     (case path of None \<Rightarrow> run fs s
      | Some p \<Rightarrow> if image_ok w p then run fs (s\<lparr>canvas_ops := canvas_ops s @ [g p (cur_y s)]\<rparr>)
                  else run fs s)"
  by (simp add: try_draw_image_def draw_at_def draw_def split: option.splits)

lemma run_draw_label:
  "run (draw_label labels key x # fs) s =
     (case labels key of None \<Rightarrow> Inl (KeyError key)
      | Some l \<Rightarrow> run fs (s\<lparr>canvas_ops := canvas_ops s @ [DrawString x (cur_y s) l]\<rparr>))"
  by (simp add: draw_label_def draw_at_def draw_def split: option.splits)

lemma run_raise: "run (raise e # fs) s = Inl e"
  by (simp add: raise_def)

declare run.simps(2) [simp del]

lemmas run_steps = run_draw run_draw_at run_set_y run_down run_try_draw_image run_draw_label
  run_raise

lemma content_append: "content (cs @ ds) = content cs @ content ds"
  by (simp add: content_def)

lemma content_Nil: "content [] = []"
  by (simp add: content_def)

lemma content_Cons: "content (c # cs) = content_of c @ content cs"
  by (simp add: content_def)

lemmas content_simps = content_append content_Nil content_Cons

lemma header_run:
  "run (header w self d) s = Inr s' \<Longrightarrow>
     content (canvas_ops s') = content (canvas_ops s) @ shown_image w (logo_path d)
        @ [Text Centre (company_line1 d), Text Centre (company_line2 d),
           Text Centre (period_display d)]
     \<and> cur_y s' = fsub w (fsub w (cur_y s) (fmul w 22 (mm w))) (fmul w 10 (mm w))"
  by (auto simp: header_def Let_def sep_def run_steps content_simps shown_image_def
           split: option.splits if_splits)

lemma employee_info_run:
  "run (employee_info w self d) s = Inr s' \<Longrightarrow>
     content (canvas_ops s') = content (canvas_ops s) @
          [Text Left (py ''EMPLOYEE REFERENCE NO''), Text Left (get_or (employee d (py ''ref'')) []),
           Text Left (py ''NAME''), Text Left (get_or (employee d (py ''name'')) []),
           Text Left (py ''DESIGNATION''), Text Left (get_or (employee d (py ''designation'')) []),
           Text Left (py ''DEPARTMENT''), Text Left (get_or (employee d (py ''department'')) []),
           Text Left (py ''MONTH''), Text Left (period_display d)]
     \<and> cur_y s' = fsub w (fsub w (fsub w (fsub w (fsub w (fsub w (fsub w (cur_y s)
          (line_gap self)) (line_gap self)) (line_gap self)) (line_gap self)) (line_gap self))
          (fmul w 2 (mm w))) (fmul w 12 (mm w))"
  by (auto simp: employee_info_def info_row_def Let_def sep_def run_steps content_simps)

lemma section_title_run:
  "run (section_title w x0 title) s = Inr s' \<Longrightarrow>
     content (canvas_ops s') = content (canvas_ops s) @ [Text Left title]
     \<and> cur_y s' = fsub w (cur_y s) 20"
  by (auto simp: section_title_def run_steps content_simps)

lemma item_row_run:
  "run (item_row w self x0 x1 symbol it @ fs) s =
     run fs (s\<lparr>canvas_ops := canvas_ops s @ [DrawString x0 (cur_y s) (label it),
                 DrawRightString x1 (cur_y s) (fmt_currency (amount it) symbol)],
               cur_y := fsub w (cur_y s) (line_gap self),
               y_hist := y_hist s @ [fsub w (cur_y s) (line_gap self)]\<rparr>)"
  by (simp add: item_row_def run_steps)

lemma item_rows_run:
  "run (concat (map (item_row w self x0 x1 symbol) items)) s = Inr s' \<Longrightarrow>
     content (canvas_ops s') = content (canvas_ops s) @ money_rows symbol items
     \<and> cur_y s' = ((\<lambda>y. fsub w y (line_gap self)) ^^ length items) (cur_y s)"
proof (induction items arbitrary: s)
  case Nil
  then show ?case by (simp add: money_rows_def)
next
  case (Cons it items)
  let ?t = "s\<lparr>canvas_ops := canvas_ops s @ [DrawString x0 (cur_y s) (label it),
                 DrawRightString x1 (cur_y s) (fmt_currency (amount it) symbol)],
               cur_y := fsub w (cur_y s) (line_gap self),
               y_hist := y_hist s @ [fsub w (cur_y s) (line_gap self)]\<rparr>"
  from Cons.prems have "run (concat (map (item_row w self x0 x1 symbol) items)) ?t = Inr s'"
    by (simp add: item_row_run)
  moreover have "((\<lambda>y. fsub w y k) ^^ n) (fsub w y0 k) = fsub w (((\<lambda>y. fsub w y k) ^^ n) y0) k"
    for k n y0
    using funpow_swap1[of "\<lambda>y. fsub w y k" n y0] by simp
  ultimately show ?case
    using Cons.IH[of ?t] by (simp add: content_simps money_rows_def)
qed

lemma line_items_run:
  "run (line_items w self x0 x1 items symbol) s = Inr s' \<Longrightarrow>
     content (canvas_ops s') = content (canvas_ops s) @ money_rows symbol items
     \<and> cur_y s' = ((\<lambda>y. fsub w y (line_gap self)) ^^ length items) (cur_y s)"
proof -
  assume "run (line_items w self x0 x1 items symbol) s = Inr s'"
  then have "run (concat (map (item_row w self x0 x1 symbol) items))
               (s\<lparr>canvas_ops := canvas_ops s @ [SetFont (py ''Helvetica'') 11]\<rparr>) = Inr s'"
    by (simp add: line_items_def run_steps)
  from item_rows_run[OF this] show ?thesis by (simp add: content_simps)
qed

lemma earnings_section_run:
  assumes "run (earnings_section w self d gross) s = Inr s'"
  shows "totals_labels d (py ''gross_income_label'') \<noteq> None"
    and "content (canvas_ops s') = content (canvas_ops s) @ [Text Left (py ''EARNINGS:'')]
           @ money_rows (currency_symbol d) (earnings d)
           @ [Text Left (get_or (totals_labels d (py ''gross_income_label'')) []),
              Text Right (fmt_currency gross (currency_symbol d))]"
    and "cur_y s' = fsub w (fsub w (fsub w
           (((\<lambda>y. fsub w y (line_gap self)) ^^ length (earnings d)) (fsub w (cur_y s) 20))
           (line_gap self)) (fmul w 6 (mm w))) (fmul w 12 (mm w))"
proof -
  let ?x0 = "margin self" and ?x1 = "fsub w (fst (page_size self)) (margin self)"
  let ?C = "[draw (SetFont (py ''Helvetica-Bold'') 11),
            draw_label (totals_labels d) (py ''gross_income_label'') ?x0,
            draw_at (\<lambda>y. DrawRightString ?x1 y (fmt_currency gross (currency_symbol d))),
            down w (line_gap self),
            down w (fmul w 6 (mm w))]
         @ sep ?x0 ?x1
         @ [down w (fmul w 12 (mm w))]"
  have e: "earnings_section w self d gross = section_title w ?x0 (py ''EARNINGS:'')
         @ line_items w self ?x0 ?x1 (earnings d) (currency_symbol d) @ ?C"
    by (simp add: earnings_section_def Let_def)
  from assms obtain t1 where a: "run (section_title w ?x0 (py ''EARNINGS:'')) s = Inr t1"
    and r: "run (line_items w self ?x0 ?x1 (earnings d) (currency_symbol d) @ ?C) t1 = Inr s'"
    unfolding e by (rule run_appendE)
  from r obtain t2 where b: "run (line_items w self ?x0 ?x1 (earnings d) (currency_symbol d)) t1 = Inr t2"
    and c: "run ?C t2 = Inr s'"
    by (rule run_appendE)
  note A = section_title_run[OF a] and B = line_items_run[OF b]
  from c show "totals_labels d (py ''gross_income_label'') \<noteq> None"
    by (auto simp: run_steps sep_def split: option.splits)
  from c have "content (canvas_ops s') = content (canvas_ops t2)
           @ [Text Left (get_or (totals_labels d (py ''gross_income_label'')) []),
              Text Right (fmt_currency gross (currency_symbol d))]
      \<and> cur_y s' = fsub w (fsub w (fsub w (cur_y t2) (line_gap self)) (fmul w 6 (mm w))) (fmul w 12 (mm w))"
    by (auto simp: run_steps sep_def content_simps get_or_def split: option.splits)
  with A B show "content (canvas_ops s') = content (canvas_ops s) @ [Text Left (py ''EARNINGS:'')]
           @ money_rows (currency_symbol d) (earnings d)
           @ [Text Left (get_or (totals_labels d (py ''gross_income_label'')) []),
              Text Right (fmt_currency gross (currency_symbol d))]"
    and "cur_y s' = fsub w (fsub w (fsub w
           (((\<lambda>y. fsub w y (line_gap self)) ^^ length (earnings d)) (fsub w (cur_y s) 20))
           (line_gap self)) (fmul w 6 (mm w))) (fmul w 12 (mm w))"
    by simp_all
qed

lemma deductions_section_run:
  assumes "run (deductions_section w self d td) s = Inr s'"
  shows "totals_labels d (py ''total_deduction_label'') \<noteq> None"
    and "content (canvas_ops s') = content (canvas_ops s) @ [Text Left (py ''DEDUCTIONS:'')]
           @ money_rows (currency_symbol d) (deductions d)
           @ [Text Left (get_or (totals_labels d (py ''total_deduction_label'')) []),
              Text Right (fmt_currency td (currency_symbol d))]"
    and "cur_y s' = fsub w
           (((\<lambda>y. fsub w y (line_gap self)) ^^ length (deductions d)) (fsub w (cur_y s) 20))
           (line_gap self)"
proof -
  let ?x0 = "margin self" and ?x1 = "fsub w (fst (page_size self)) (margin self)"
  let ?C = "[draw (SetFont (py ''Helvetica-Bold'') 11),
            draw_label (totals_labels d) (py ''total_deduction_label'') ?x0,
            draw_at (\<lambda>y. DrawRightString ?x1 y (fmt_currency td (currency_symbol d))),
            down w (line_gap self)]"
  have e: "deductions_section w self d td = section_title w ?x0 (py ''DEDUCTIONS:'')
         @ line_items w self ?x0 ?x1 (deductions d) (currency_symbol d) @ ?C"
    by (simp add: deductions_section_def Let_def)
  from assms obtain t1 where a: "run (section_title w ?x0 (py ''DEDUCTIONS:'')) s = Inr t1"
    and r: "run (line_items w self ?x0 ?x1 (deductions d) (currency_symbol d) @ ?C) t1 = Inr s'"
    unfolding e by (rule run_appendE)
  from r obtain t2 where b: "run (line_items w self ?x0 ?x1 (deductions d) (currency_symbol d)) t1 = Inr t2"
    and c: "run ?C t2 = Inr s'"
    by (rule run_appendE)
  note A = section_title_run[OF a] and B = line_items_run[OF b]
  from c show "totals_labels d (py ''total_deduction_label'') \<noteq> None"
    by (auto simp: run_steps split: option.splits)
  from c have "content (canvas_ops s') = content (canvas_ops t2)
           @ [Text Left (get_or (totals_labels d (py ''total_deduction_label'')) []),
              Text Right (fmt_currency td (currency_symbol d))]
      \<and> cur_y s' = fsub w (cur_y t2) (line_gap self)"
    by (auto simp: run_steps content_simps get_or_def split: option.splits)
  with A B show "content (canvas_ops s') = content (canvas_ops s) @ [Text Left (py ''DEDUCTIONS:'')]
           @ money_rows (currency_symbol d) (deductions d)
           @ [Text Left (get_or (totals_labels d (py ''total_deduction_label'')) []),
              Text Right (fmt_currency td (currency_symbol d))]"
    and "cur_y s' = fsub w
           (((\<lambda>y. fsub w y (line_gap self)) ^^ length (deductions d)) (fsub w (cur_y s) 20))
           (line_gap self)"
    by simp_all
qed

lemma net_pay_section_run:
  assumes "run (net_pay_section w self d net) s = Inr s'"
  shows "totals_labels d (py ''net_pay_label'') \<noteq> None"
    and "content (canvas_ops s') = content (canvas_ops s)
           @ [Text Left (get_or (totals_labels d (py ''net_pay_label'')) []),
              Text Right (fmt_currency net (currency_symbol d))]"
    and "cur_y s' = fsub w (fsub w (fsub w (cur_y s) (fmul w 10 (mm w))) (fmul w 10 (mm w)))
           (fmul w 10 (mm w))"
  using assms
  by (auto simp: net_pay_section_def Let_def run_steps sep_def content_simps get_or_def
           split: option.splits)

lemma footer_section_eq:
  assumes "signature_gap w d = Inr sg" and "name_gap w d = Inr ng"
    and "is_finite sg" and "is_finite ng"
  shows "footer_section w self d = footer_steps w self d (val sg) (val ng)"
  using assms by (simp add: footer_section_def)

lemma footer_section_gaps:
  assumes "run (footer_section w self d) s = Inr s'"
  obtains sg ng where "signature_gap w d = Inr sg" "name_gap w d = Inr ng"
    "is_finite sg" "is_finite ng"
  using assms
  by (auto simp: footer_section_def run_steps split: sum.splits if_splits)

lemma footer_steps_run:
  assumes "run (footer_steps w self d sg ng) s = Inr s'"
  shows "content (canvas_ops s') = content (canvas_ops s) @ [Text Left (by_label w d)]
           @ shown_image w (signature_path d)
           @ (if by_name w d \<noteq> [] then [Text Left (by_name w d)] else [])"
    and "cur_y s' =
           (let y6 = fsub w (cur_y s) (fmul w sg (mm w));
                y7 = (if sig_drawn w (signature_path d)
                      then fsub w (fsub w y6 (fmul w 18 (mm w))) (fmul w ng (mm w))
                      else fsub w y6 (fmul w ng (mm w)))
            in if by_name w d \<noteq> [] then fsub w y7 10 else y7)"
  using assms
  by (auto simp: footer_steps_def Let_def run_steps content_simps shown_image_def sig_drawn_def
           split: option.splits if_splits)

lemma footer_section_run:
  assumes "run (footer_section w self d) s = Inr s'"
  shows "content (canvas_ops s') = content (canvas_ops s) @ [Text Left (by_label w d)]
           @ shown_image w (signature_path d)
           @ (if by_name w d \<noteq> [] then [Text Left (by_name w d)] else [])"
    and "signature_gap w d = Inr sg \<Longrightarrow> name_gap w d = Inr ng \<Longrightarrow> cur_y s' =
           (let y6 = fsub w (cur_y s) (fmul w (val sg) (mm w));
                y7 = (if sig_drawn w (signature_path d)
                      then fsub w (fsub w y6 (fmul w 18 (mm w))) (fmul w (val ng) (mm w))
                      else fsub w y6 (fmul w (val ng) (mm w)))
            in if by_name w d \<noteq> [] then fsub w y7 10 else y7)"
proof -
  from assms obtain sg' ng' where g: "signature_gap w d = Inr sg'" "name_gap w d = Inr ng'"
    "is_finite sg'" "is_finite ng'"
    by (rule footer_section_gaps)
  from assms have r: "run (footer_steps w self d (val sg') (val ng')) s = Inr s'"
    by (simp add: footer_section_eq[OF g])
  show "content (canvas_ops s') = content (canvas_ops s) @ [Text Left (by_label w d)]
           @ shown_image w (signature_path d)
           @ (if by_name w d \<noteq> [] then [Text Left (by_name w d)] else [])"
    by (rule footer_steps_run(1)[OF r])
  show "cur_y s' =
           (let y6 = fsub w (cur_y s) (fmul w (val sg) (mm w));
                y7 = (if sig_drawn w (signature_path d)
                      then fsub w (fsub w y6 (fmul w 18 (mm w))) (fmul w (val ng) (mm w))
                      else fsub w y6 (fmul w (val ng) (mm w)))
            in if by_name w d \<noteq> [] then fsub w y7 10 else y7)"
    if a: "signature_gap w d = Inr sg" "name_gap w d = Inr ng"
  proof -
    from a g have e: "sg' = sg" "ng' = ng" by simp_all
    show ?thesis using footer_steps_run(2)[OF r] unfolding e .
  qed
qed

lemma stamp_run:
  assumes "run (stamp w self d) s = Inr s'"
  shows "content (canvas_ops s') = content (canvas_ops s)
           @ [Text Right (py ''Generated: '' @ stamp_text w d)]"
    and "cur_y s' = cur_y s"
  using assms
  by (auto simp: stamp_def Let_def run_steps content_simps)

lemma page_steps_split:
  assumes "run (page_steps w self d) s = Inr s'"
    and "totals w (earnings d) (deductions d) = (gross, td, net)"
  obtains s1 s2 s3 s4 s5 s6 where
    "run (header w self d) s = Inr s1"
    "run (employee_info w self d) s1 = Inr s2"
    "run (earnings_section w self d gross) s2 = Inr s3"
    "run (deductions_section w self d td) s3 = Inr s4"
    "run (net_pay_section w self d net) s4 = Inr s5"
    "run (footer_section w self d) s5 = Inr s6"
    "run (stamp w self d) s6 = Inr s'"
proof -
  have e: "page_steps w self d = header w self d @ employee_info w self d
        @ earnings_section w self d gross @ deductions_section w self d td
        @ net_pay_section w self d net @ footer_section w self d @ stamp w self d"
    by (simp add: page_steps_def assms(2))
  from assms(1) obtain s1 where r1: "run (header w self d) s = Inr s1"
    and a1: "run (employee_info w self d
        @ earnings_section w self d gross @ deductions_section w self d td
        @ net_pay_section w self d net @ footer_section w self d @ stamp w self d) s1 = Inr s'"
    unfolding e by (rule run_appendE)
  from a1 obtain s2 where r2: "run (employee_info w self d) s1 = Inr s2"
    and a2: "run (earnings_section w self d gross @ deductions_section w self d td
        @ net_pay_section w self d net @ footer_section w self d @ stamp w self d) s2 = Inr s'"
    by (rule run_appendE)
  from a2 obtain s3 where r3: "run (earnings_section w self d gross) s2 = Inr s3"
    and a3: "run (deductions_section w self d td
        @ net_pay_section w self d net @ footer_section w self d @ stamp w self d) s3 = Inr s'"
    by (rule run_appendE)
  from a3 obtain s4 where r4: "run (deductions_section w self d td) s3 = Inr s4"
    and a4: "run (net_pay_section w self d net @ footer_section w self d @ stamp w self d) s4 = Inr s'"
    by (rule run_appendE)
  from a4 obtain s5 where r5: "run (net_pay_section w self d net) s4 = Inr s5"
    and a5: "run (footer_section w self d @ stamp w self d) s5 = Inr s'"
    by (rule run_appendE)
  from a5 obtain s6 where r6: "run (footer_section w self d) s5 = Inr s6"
    and r7: "run (stamp w self d) s6 = Inr s'"
    by (rule run_appendE)
  from r1 r2 r3 r4 r5 r6 r7 show thesis by (rule that)
qed


lemma page_steps_run:
  assumes "run (page_steps w self d) s = Inr s'"
  shows "totals_labels d (py ''gross_income_label'') \<noteq> None"
    and "totals_labels d (py ''total_deduction_label'') \<noteq> None"
    and "totals_labels d (py ''net_pay_label'') \<noteq> None"
    and "content (canvas_ops s') = content (canvas_ops s) @ page_content w d"
    and "cur_y s = fsub w (snd (page_size self)) (margin self) \<Longrightarrow>
         signature_gap w d = Inr sg \<Longrightarrow> name_gap w d = Inr ng \<Longrightarrow>
         cur_y s' = final_cursor w self (length (earnings d)) (length (deductions d))
                      (val sg) (val ng) (sig_drawn w (signature_path d))
                      (by_name w d \<noteq> [])"
proof -
  obtain gross td net where t: "totals w (earnings d) (deductions d) = (gross, td, net)"
    by (cases "totals w (earnings d) (deductions d)")
  from assms t obtain s1 s2 s3 s4 s5 s6 where
    r1: "run (header w self d) s = Inr s1" and
    r2: "run (employee_info w self d) s1 = Inr s2" and
    r3: "run (earnings_section w self d gross) s2 = Inr s3" and
    r4: "run (deductions_section w self d td) s3 = Inr s4" and
    r5: "run (net_pay_section w self d net) s4 = Inr s5" and
    r6: "run (footer_section w self d) s5 = Inr s6" and
    r7: "run (stamp w self d) s6 = Inr s'"
    by (rule page_steps_split)
  note h = header_run[OF r1] and i = employee_info_run[OF r2]
    and ea = earnings_section_run[OF r3] and de = deductions_section_run[OF r4]
    and np = net_pay_section_run[OF r5] and fo = footer_section_run[OF r6]
    and st = stamp_run[OF r7]
  show "totals_labels d (py ''gross_income_label'') \<noteq> None" by (rule ea(1))
  show "totals_labels d (py ''total_deduction_label'') \<noteq> None" by (rule de(1))
  show "totals_labels d (py ''net_pay_label'') \<noteq> None" by (rule np(1))
  show "content (canvas_ops s') = content (canvas_ops s) @ page_content w d"
    unfolding st(1) fo(1) np(2) de(2) ea(2) by (simp add: i h page_content_def t)
  show "cur_y s' = final_cursor w self (length (earnings d)) (length (deductions d))
                      (val sg) (val ng) (sig_drawn w (signature_path d))
                      (by_name w d \<noteq> [])"
    if "cur_y s = fsub w (snd (page_size self)) (margin self)"
      and g: "signature_gap w d = Inr sg" "name_gap w d = Inr ng"
    unfolding st(2) fo(2)[OF g] np(3) de(3) ea(3)
    by (simp add: i h that(1) final_cursor_def footer_cursor_def Let_def)
qed

lemma render_pdf_run:
  assumes "render_pdf w self p d = Inr (out, s)"
  obtains t where "run (page_steps w self d) (start_state w self) = Inr t"
    and "s = t\<lparr>canvas_ops := canvas_ops t @ [ShowPage, Save]\<rparr>"
    and "out = resolve w p"
    and "mkdir_error w (resolve w p) = None" and "save_error w (resolve w p) = None"
  using assms
  by (auto simp: render_pdf_def Let_def split: option.splits sum.splits)

lemma render_pdf_gaps:
  assumes "render_pdf w self p d = Inr (out, s)"
  obtains sg ng where "signature_gap w d = Inr sg" "name_gap w d = Inr ng"
    "is_finite sg" "is_finite ng"
proof -
  from assms obtain t where r: "run (page_steps w self d) (start_state w self) = Inr t"
    by (rule render_pdf_run)
  obtain gross td net where t: "totals w (earnings d) (deductions d) = (gross, td, net)"
    by (cases "totals w (earnings d) (deductions d)")
  from r t obtain s5 s6 where "run (footer_section w self d) s5 = Inr s6"
    by (rule page_steps_split)
  then show thesis by (rule footer_section_gaps) (rule that)
qed

lemma render_pdf_page:
  assumes "render_pdf w self p d = Inr (out, s)"
  shows "content (canvas_ops s) = page_content w d"
    and "signature_gap w d = Inr sg \<Longrightarrow> name_gap w d = Inr ng \<Longrightarrow>
         cur_y s = final_cursor w self (length (earnings d)) (length (deductions d))
                      (val sg) (val ng) (sig_drawn w (signature_path d))
                      (by_name w d \<noteq> [])"
    and "totals_labels d (py ''gross_income_label'') \<noteq> None"
    and "totals_labels d (py ''total_deduction_label'') \<noteq> None"
    and "totals_labels d (py ''net_pay_label'') \<noteq> None"
proof -
  from assms obtain t where r: "run (page_steps w self d) (start_state w self) = Inr t"
    and s: "s = t\<lparr>canvas_ops := canvas_ops t @ [ShowPage, Save]\<rparr>"
    by (rule render_pdf_run)
  note p = page_steps_run[OF r]
  show "content (canvas_ops s) = page_content w d"
    using p(4) by (simp add: s content_simps start_state_def)
  show "cur_y s = final_cursor w self (length (earnings d)) (length (deductions d))
                      (val sg) (val ng) (sig_drawn w (signature_path d))
                      (by_name w d \<noteq> [])"
    if "signature_gap w d = Inr sg" "name_gap w d = Inr ng"
    using p(5)[OF _ that] by (simp add: s start_state_def)
  show "totals_labels d (py ''gross_income_label'') \<noteq> None"
    "totals_labels d (py ''total_deduction_label'') \<noteq> None"
    "totals_labels d (py ''net_pay_label'') \<noteq> None"
    by (rule p)+
qed

section \<open>The cursor never moves up\<close>

lemma keeps_run: "list_all (keeps P) fs \<Longrightarrow> keeps P (run fs)"
proof (induction fs)
  case Nil
  show ?case by (simp add: keeps_def)
next
  case (Cons f fs)
  then have f: "keeps P f" and r: "keeps P (run fs)" by simp_all
  show ?case
    unfolding keeps_def
  proof (intro allI impI)
    fix s s' assume p: "P s" and e: "run (f # fs) s = Inr s'"
    from e obtain t where t: "f s = Inr t" "run fs t = Inr s'"
      by (auto simp: run.simps(2) split: sum.splits)
    from f p t(1) have "P t" unfolding keeps_def by blast
    with r t(2) show "P s'" unfolding keeps_def by blast
  qed
qed

lemma list_all_concat_map: "(\<And>x. list_all P (f x)) \<Longrightarrow> list_all P (concat (map f xs))"
  by (induction xs) simp_all

lemma fmul_nonneg: "rounding w \<Longrightarrow> 0 \<le> a \<Longrightarrow> 0 \<le> b \<Longrightarrow> 0 \<le> fmul w a b"
proof -
  assume r: "rounding w" and "0 \<le> a" "0 \<le> b"
  then have "0 \<le> a * b" by simp
  with r have "rnd w 0 \<le> rnd w (a * b)" unfolding rounding_def by blast
  with r show ?thesis by (simp add: fmul_def rounding_def)
qed

lemma fsub_le: "rounding w \<Longrightarrow> 0 \<le> k \<Longrightarrow> rnd w y = y \<Longrightarrow> fsub w y k \<le> y"
proof -
  assume r: "rounding w" and "0 \<le> k" and y: "rnd w y = y"
  then have "y - k \<le> y" by simp
  with r have "rnd w (y - k) \<le> rnd w y" unfolding rounding_def by blast
  with y show ?thesis by (simp add: fsub_def)
qed

lemma fsub_float: "rounding w \<Longrightarrow> rnd w (fsub w y k) = fsub w y k"
  by (simp add: fsub_def rounding_def)

lemma cursor_inv_move:
  assumes "cursor_inv w start s" and "v \<le> cur_y s" and "rnd w v = v"
  shows "cursor_inv w start (s\<lparr>cur_y := v, y_hist := y_hist s @ [v]\<rparr>)"
proof -
  from assms(1) have h: "y_hist s \<noteq> []" "hd (y_hist s) = start" "last (y_hist s) = cur_y s"
    "sorted_wrt (\<ge>) (y_hist s)"
    by (simp_all add: cursor_inv_def)
  have "x \<ge> cur_y s" if "x \<in> set (y_hist s)" for x
  proof -
    from h(1) have "y_hist s = butlast (y_hist s) @ [last (y_hist s)]" by simp
    then have "sorted_wrt (\<ge>) (butlast (y_hist s) @ [cur_y s])"
      and "x \<in> set (butlast (y_hist s) @ [cur_y s])"
      using h(3,4) that by (metis)+
    then show ?thesis by (auto simp: sorted_wrt_append)
  qed
  then have "sorted_wrt (\<ge>) (y_hist s @ [v])"
    using h(4) assms(2) by (fastforce simp: sorted_wrt_append)
  with h assms(3) show ?thesis by (simp add: cursor_inv_def)
qed

lemma keeps_draw: "keeps (cursor_inv w start) (draw c)"
  by (auto simp: keeps_def draw_def cursor_inv_def)

lemma keeps_draw_at: "keeps (cursor_inv w start) (draw_at g)"
  by (auto simp: keeps_def draw_at_def draw_def cursor_inv_def)

lemma keeps_try_draw_image: "keeps (cursor_inv w start) (try_draw_image w path g)"
  by (auto simp: keeps_def try_draw_image_def draw_at_def draw_def cursor_inv_def
           split: option.splits if_splits)

lemma keeps_draw_label: "keeps (cursor_inv w start) (draw_label labels key x)"
  by (auto simp: keeps_def draw_label_def draw_at_def draw_def cursor_inv_def
           split: option.splits)

lemma keeps_down: "rounding w \<Longrightarrow> 0 \<le> k \<Longrightarrow> keeps (cursor_inv w start) (down w k)"
proof -
  assume r: "rounding w" and k: "0 \<le> k"
  show ?thesis
    unfolding keeps_def down_def set_y_def Let_def
  proof (intro allI impI)
    fix s s'
    assume i: "cursor_inv w start s"
      and e: "Inr (s\<lparr>cur_y := fsub w (cur_y s) k, y_hist := y_hist s @ [fsub w (cur_y s) k]\<rparr>) = Inr s'"
    from i have "rnd w (cur_y s) = cur_y s" by (simp add: cursor_inv_def)
    from cursor_inv_move[OF i fsub_le[OF r k this] fsub_float[OF r]] e
    show "cursor_inv w start s'" by simp
  qed
qed

lemma keeps_below_signature:
  "rounding w \<Longrightarrow> 0 \<le> h \<Longrightarrow> 0 \<le> k \<Longrightarrow>
     keeps (cursor_inv w start) (set_y (\<lambda>y. fsub w (fsub w y h) k))"
proof -
  assume r: "rounding w" and h: "0 \<le> h" and k: "0 \<le> k"
  show ?thesis
    unfolding keeps_def set_y_def Let_def
  proof (intro allI impI)
    fix s s'
    assume i: "cursor_inv w start s"
      and e: "Inr (s\<lparr>cur_y := fsub w (fsub w (cur_y s) h) k,
                     y_hist := y_hist s @ [fsub w (fsub w (cur_y s) h) k]\<rparr>) = Inr s'"
    from i have y: "rnd w (cur_y s) = cur_y s" by (simp add: cursor_inv_def)
    have "fsub w (fsub w (cur_y s) h) k \<le> fsub w (cur_y s) h"
      by (rule fsub_le[OF r k fsub_float[OF r]])
    also have "\<dots> \<le> cur_y s" by (rule fsub_le[OF r h y])
    finally have "fsub w (fsub w (cur_y s) h) k \<le> cur_y s" .
    from cursor_inv_move[OF i this fsub_float[OF r]] e
    show "cursor_inv w start s'" by simp
  qed
qed

lemma keeps_raise: "keeps P (raise e)"
  by (simp add: keeps_def raise_def)

lemmas keeps_steps = keeps_draw keeps_draw_at keeps_try_draw_image keeps_draw_label keeps_down
  keeps_below_signature keeps_raise fmul_nonneg

lemma page_steps_keep:
  assumes "rounding w" "0 \<le> mm w" "0 \<le> line_gap self"
    and "\<And>sg. signature_gap w d = Inr sg \<Longrightarrow> 0 \<le> val sg"
    and "\<And>ng. name_gap w d = Inr ng \<Longrightarrow> 0 \<le> val ng"
  shows "list_all (keeps (cursor_inv w start)) (page_steps w self d)"
proof -
  obtain gross td net where t: "totals w (earnings d) (deductions d) = (gross, td, net)"
    by (cases "totals w (earnings d) (deductions d)")
  have 1: "list_all (keeps (cursor_inv w start)) (header w self d)"
    using assms by (simp add: header_def Let_def sep_def keeps_steps)
  have 2: "list_all (keeps (cursor_inv w start)) (employee_info w self d)"
    using assms by (simp add: employee_info_def info_row_def Let_def sep_def keeps_steps)
  have li: "list_all (keeps (cursor_inv w start)) (line_items w self x0 x1 items symbol)"
    for x0 x1 items symbol
    unfolding line_items_def using assms
    by (simp add: keeps_steps) (rule list_all_concat_map, simp add: item_row_def keeps_steps)
  have 3: "list_all (keeps (cursor_inv w start)) (earnings_section w self d gross)"
    using assms by (simp add: earnings_section_def section_title_def Let_def sep_def keeps_steps li)
  have 4: "list_all (keeps (cursor_inv w start)) (deductions_section w self d td)"
    using assms by (simp add: deductions_section_def section_title_def Let_def keeps_steps li)
  have 5: "list_all (keeps (cursor_inv w start)) (net_pay_section w self d net)"
    using assms by (simp add: net_pay_section_def Let_def sep_def keeps_steps)
  have 6: "list_all (keeps (cursor_inv w start)) (footer_section w self d)"
    using assms
    by (simp add: footer_section_def footer_steps_def Let_def keeps_steps split: sum.splits)
  have 7: "list_all (keeps (cursor_inv w start)) (stamp w self d)"
    by (simp add: stamp_def Let_def keeps_steps)
  show ?thesis
    by (simp add: page_steps_def t 1 2 3 4 5 6 7)
qed

lemma start_state_inv:
  "rounding w \<Longrightarrow> cursor_inv w (fsub w (snd (page_size self)) (margin self)) (start_state w self)"
  by (simp add: cursor_inv_def start_state_def fsub_float)

section \<open>A render returns when its labels are present, its footer gaps are finite numbers
  and the file can be written\<close>

lemma run_total_append:
  "\<exists>t. run fs s = Inr t \<Longrightarrow> (\<And>t. \<exists>s'. run gs t = Inr s') \<Longrightarrow> \<exists>s'. run (fs @ gs) s = Inr s'"
  by (auto simp: run_append)

lemma item_rows_total: "\<exists>s'. run (concat (map (item_row w self x0 x1 symbol) items)) s = Inr s'"
  by (induction items arbitrary: s) (simp_all add: item_row_run)

lemma line_items_total: "\<exists>s'. run (line_items w self x0 x1 items symbol) s = Inr s'"
  by (simp add: line_items_def run_steps item_rows_total)

lemma section_title_total: "\<exists>s'. run (section_title w x0 title) s = Inr s'"
  by (simp add: section_title_def run_steps)

lemma header_total: "\<exists>s'. run (header w self d) s = Inr s'"
  by (simp add: header_def Let_def sep_def run_steps split: option.splits)

lemma employee_info_total: "\<exists>s'. run (employee_info w self d) s = Inr s'"
  by (simp add: employee_info_def info_row_def Let_def sep_def run_steps)

lemma earnings_section_total:
  "totals_labels d (py ''gross_income_label'') \<noteq> None \<Longrightarrow>
     \<exists>s'. run (earnings_section w self d gross) s = Inr s'"
  unfolding earnings_section_def Let_def
  by (intro run_total_append section_title_total line_items_total)
     (auto simp: run_steps sep_def)

lemma deductions_section_total:
  "totals_labels d (py ''total_deduction_label'') \<noteq> None \<Longrightarrow>
     \<exists>s'. run (deductions_section w self d td) s = Inr s'"
  unfolding deductions_section_def Let_def
  by (intro run_total_append section_title_total line_items_total)
     (auto simp: run_steps)

lemma net_pay_section_total:
  "totals_labels d (py ''net_pay_label'') \<noteq> None \<Longrightarrow>
     \<exists>s'. run (net_pay_section w self d net) s = Inr s'"
  by (auto simp: net_pay_section_def Let_def sep_def run_steps)

lemma footer_section_total:
  assumes "signature_gap w d = Inr sg" and "name_gap w d = Inr ng"
    and "is_finite sg" and "is_finite ng"
  shows "\<exists>s'. run (footer_section w self d) s = Inr s'"
  unfolding footer_section_eq[OF assms]
  by (simp add: footer_steps_def Let_def run_steps split: option.splits)

lemma stamp_total: "\<exists>s'. run (stamp w self d) s = Inr s'"
  by (simp add: stamp_def Let_def run_steps)

lemma page_steps_total:
  assumes "totals_labels d (py ''gross_income_label'') \<noteq> None"
    and "totals_labels d (py ''total_deduction_label'') \<noteq> None"
    and "totals_labels d (py ''net_pay_label'') \<noteq> None"
    and "signature_gap w d = Inr sg" and "name_gap w d = Inr ng"
    and "is_finite sg" and "is_finite ng"
  shows "\<exists>s'. run (page_steps w self d) s = Inr s'"
proof -
  obtain gross td net where t: "totals w (earnings d) (deductions d) = (gross, td, net)"
    by (cases "totals w (earnings d) (deductions d)")
  show ?thesis
    unfolding page_steps_def t prod.case
    by (intro run_total_append header_total employee_info_total earnings_section_total
          deductions_section_total net_pay_section_total stamp_total
          footer_section_total[OF assms(4-7)] assms(1-3))
qed

lemma render_pdf_succeeds:
  assumes "totals_labels d (py ''gross_income_label'') \<noteq> None"
    and "totals_labels d (py ''total_deduction_label'') \<noteq> None"
    and "totals_labels d (py ''net_pay_label'') \<noteq> None"
    and "signature_gap w d = Inr sg" and "name_gap w d = Inr ng"
    and "is_finite sg" and "is_finite ng"
    and "mkdir_error w (resolve w p) = None" and "save_error w (resolve w p) = None"
  shows "\<exists>s. render_pdf w self p d = Inr (resolve w p, s)"
proof -
  from page_steps_total[OF assms(1-7)] obtain t
    where "run (page_steps w self d) (start_state w self) = Inr t" by blast
  then show ?thesis by (simp add: render_pdf_def Let_def assms(8,9))
qed

section \<open>The totals\<close>

lemmas sample_defs = sample_world_def sample_payslip_def




lemma sample_gaps:
  "signature_gap sample_world sample_payslip = Inr (Fin 4)"
  "name_gap sample_world sample_payslip = Inr (Fin 3)"
  by (simp_all add: signature_gap_def name_gap_def py_float_def footer_dict_def get_or_def
        sample_defs)

lemma sample_render:
  "\<exists>s. render_pdf sample_world (default_exporter sample_world) (py ''out/E1_Ada_2026-01.pdf'')
         sample_payslip = Inr (py ''out/E1_Ada_2026-01.pdf'', s)"
  using render_pdf_succeeds[of sample_payslip sample_world "Fin 4" "Fin 3"
      "py ''out/E1_Ada_2026-01.pdf''" "default_exporter sample_world"] sample_gaps
  by (simp add: sample_defs)










lemma ilog2_d2: "ilog2 (5764607523034235 / 576460752303423488) = - 7"
  by (simp add: ilog2.simps)


lemma b64_d2: "b64 (5764607523034235 / 576460752303423488) = 5764607523034235 / 576460752303423488"
  by (simp add: b64_def ilog2_d2 Let_def round_half_even_def)







section \<open>The cursor\<close>

lemma py_str_now: "py_str (w\<lparr>now := t\<rparr>) v = py_str w v"
  by (cases v) (simp_all add: py_str_def)

lemma py_float_now: "py_float (w\<lparr>now := t\<rparr>) v = py_float w v"
  by (cases v) (simp_all add: py_float_def)

text \<open>
  Claim C4. For an exporter with a positive line gap (the default exporter has 14) and
  footer gaps that are not negative, the cursor of a render starts at the page height
  minus the margin and never increases, through every assignment to \<open>y\<close> in all
  sections; the final cursor is \<open>final_cursor\<close> of the page geometry, the numbers of
  rows, the footer gaps, whether the signature was drawn and whether a name is
  printed, so it is the same whenever these are the same: it does not depend on the
  texts, the amounts, the labels, the output path or the clock.
\<close>

theorem cursor_non_increasing:
  assumes "rounding w" and "0 < mm w" and "0 < line_gap self"
    and "signature_gap w d = Inr sg" and "0 \<le> val sg"
    and "name_gap w d = Inr ng" and "0 \<le> val ng"
    and "render_pdf w self p d = Inr (out, s)"
  shows "hd (y_hist s) = fsub w (snd (page_size self)) (margin self)
     \<and> sorted_wrt (\<ge>) (y_hist s)
     \<and> last (y_hist s) = cur_y s
     \<and> cur_y s = final_cursor w self (length (earnings d)) (length (deductions d))
                    (val sg) (val ng) (sig_drawn w (signature_path d))
                    (by_name w d \<noteq> [])
     \<and> (\<forall>t out' s'. render_pdf (w\<lparr>now := t\<rparr>) self p d = Inr (out', s') \<longrightarrow> cur_y s' = cur_y s)"
proof -
  from assms(8) obtain t where r: "run (page_steps w self d) (start_state w self) = Inr t"
    and s: "s = t\<lparr>canvas_ops := canvas_ops t @ [ShowPage, Save]\<rparr>"
    by (rule render_pdf_run)
  have "list_all (keeps (cursor_inv w (fsub w (snd (page_size self)) (margin self))))
          (page_steps w self d)"
    using assms(1-7) by (intro page_steps_keep) simp_all
  from keeps_run[OF this] start_state_inv[OF assms(1)] r
  have "cursor_inv w (fsub w (snd (page_size self)) (margin self)) t"
    unfolding keeps_def by blast
  then have i: "hd (y_hist s) = fsub w (snd (page_size self)) (margin self)"
    "sorted_wrt (\<ge>) (y_hist s)" "last (y_hist s) = cur_y s"
    by (simp_all add: cursor_inv_def s)
  note f = render_pdf_page(2)[OF assms(8) assms(4) assms(6)]
  have c: "cur_y s' = cur_y s" if "render_pdf (w\<lparr>now := t\<rparr>) self p d = Inr (out', s')"
    for t out' s'
  proof -
    have "fsub (w\<lparr>now := t\<rparr>) = fsub w" "fmul (w\<lparr>now := t\<rparr>) = fmul w"
      by (intro ext, simp add: fsub_def fmul_def)+
    then have "final_cursor (w\<lparr>now := t\<rparr>) self ne nd a b dr nm = final_cursor w self ne nd a b dr nm"
      for ne nd a b dr nm
      by (simp add: final_cursor_def footer_cursor_def Let_def)
    moreover have "sig_drawn (w\<lparr>now := t\<rparr>) (signature_path d) = sig_drawn w (signature_path d)"
      by (cases "signature_path d") (simp_all add: sig_drawn_def)
    moreover have "by_name (w\<lparr>now := t\<rparr>) d = by_name w d"
      by (simp add: by_name_def py_str_now)
    moreover have g: "signature_gap (w\<lparr>now := t\<rparr>) d = Inr sg" "name_gap (w\<lparr>now := t\<rparr>) d = Inr ng"
      using assms(4,6) by (simp_all add: signature_gap_def name_gap_def py_float_now)
    ultimately show ?thesis
      using render_pdf_page(2)[OF that g] f by simp
  qed
  show ?thesis
    by (intro conjI allI impI i f c)
qed

theorem cursor_non_increasing_witness:
  "rounding sample_world \<and> 0 < mm sample_world \<and> 0 < line_gap (default_exporter sample_world)
   \<and> signature_gap sample_world sample_payslip = Inr (Fin 4)
   \<and> name_gap sample_world sample_payslip = Inr (Fin 3)
   \<and> hd (page_hist (render_pdf sample_world (default_exporter sample_world)
        (py ''out/E1_Ada_2026-01.pdf'') sample_payslip)) = 101880 / 127
   \<and> sorted_wrt (\<ge>) (page_hist (render_pdf sample_world (default_exporter sample_world)
        (py ''out/E1_Ada_2026-01.pdf'') sample_payslip))
   \<and> last (page_hist (render_pdf sample_world (default_exporter sample_world)
        (py ''out/E1_Ada_2026-01.pdf'') sample_payslip)) = 41390 / 127"
proof -
  obtain s where r: "render_pdf sample_world (default_exporter sample_world)
         (py ''out/E1_Ada_2026-01.pdf'') sample_payslip = Inr (py ''out/E1_Ada_2026-01.pdf'', s)"
    using sample_render by blast
  have h: "rounding sample_world" "0 < mm sample_world" "0 < line_gap (default_exporter sample_world)"
    by (simp_all add: rounding_def sample_defs default_exporter_def init_exporter_def)
  have v: "0 \<le> val (Fin 4)" "0 \<le> val (Fin 3)" by simp_all
  have n: "by_name sample_world sample_payslip = py ''A. Boss''"
    by (simp add: by_name_def py_str_def footer_dict_def get_or_def sample_payslip_def strip_def
          is_space_def)
  have f: "final_cursor sample_world (default_exporter sample_world) 2 1 4 3 False True = 41390 / 127"
    by (simp add: final_cursor_def footer_cursor_def Let_def fsub_def fmul_def sample_world_def
          default_exporter_def init_exporter_def A4_def eval_nat_numeral)
  have y0: "fsub sample_world (snd (page_size (default_exporter sample_world)))
              (margin (default_exporter sample_world)) = 101880 / 127"
    by (simp add: fsub_def fmul_def sample_world_def default_exporter_def init_exporter_def A4_def)
  have g: "length (earnings sample_payslip) = 2" "length (deductions sample_payslip) = 1"
    "sig_drawn sample_world (signature_path sample_payslip) = False"
    by (simp_all add: sig_drawn_def sample_payslip_def)
  note C = cursor_non_increasing[OF h sample_gaps(1) v(1) sample_gaps(2) v(2) r]
  have c1: "hd (y_hist s) = 101880 / 127"
    using C[THEN conjunct1] y0 by simp
  have c2: "sorted_wrt (\<ge>) (y_hist s)"
    by (rule C[THEN conjunct2, THEN conjunct1])
  have "last (y_hist s) = final_cursor sample_world (default_exporter sample_world) 2 1 4 3 False True"
    using C[THEN conjunct2, THEN conjunct2, THEN conjunct1]
      C[THEN conjunct2, THEN conjunct2, THEN conjunct2, THEN conjunct1]
    by (simp add: g n)
  then have c3: "last (y_hist s) = 41390 / 127"
    unfolding f .
  have ph: "page_hist (render_pdf sample_world (default_exporter sample_world)
        (py ''out/E1_Ada_2026-01.pdf'') sample_payslip) = y_hist s"
    unfolding r by (simp add: page_hist_def)
  show ?thesis
    unfolding ph by (intro conjI h sample_gaps c1 c2 c3)
qed

section \<open>The footer\<close>







section \<open>A section without line items\<close>

lemma fmt_currency_zero: "fmt_currency (Fin 0) symbol = symbol_text symbol @ py ''0.00''"
  by (simp add: fmt_eval symbol_text_def)

lemma earnings_section_empty:
  assumes "earnings d = []" and "run (earnings_section w self d gross) s = Inr s'"
  shows "content (canvas_ops s') = content (canvas_ops s)
           @ [Text Left (py ''EARNINGS:''),
              Text Left (get_or (totals_labels d (py ''gross_income_label'')) []),
              Text Right (fmt_currency gross (currency_symbol d))]"
    and "y_hist s' = y_hist s
           @ [fsub w (cur_y s) 20,
              fsub w (fsub w (cur_y s) 20) (line_gap self),
              fsub w (fsub w (fsub w (cur_y s) 20) (line_gap self)) (fmul w 6 (mm w)),
              fsub w (fsub w (fsub w (fsub w (cur_y s) 20) (line_gap self)) (fmul w 6 (mm w)))
                (fmul w 12 (mm w))]"
  using assms
  by (auto simp: earnings_section_def section_title_def line_items_def Let_def sep_def run_steps
        content_simps get_or_def split: option.splits)

lemma deductions_section_empty:
  assumes "deductions d = []" and "run (deductions_section w self d td) s = Inr s'"
  shows "content (canvas_ops s') = content (canvas_ops s)
           @ [Text Left (py ''DEDUCTIONS:''),
              Text Left (get_or (totals_labels d (py ''total_deduction_label'')) []),
              Text Right (fmt_currency td (currency_symbol d))]"
    and "y_hist s' = y_hist s
           @ [fsub w (cur_y s) 20, fsub w (fsub w (cur_y s) 20) (line_gap self)]"
  using assms
  by (auto simp: deductions_section_def section_title_def line_items_def Let_def run_steps
        content_simps get_or_def split: option.splits)

text \<open>
  Claim C6. With an empty earnings list and the gross label present, the earnings section
  returns, having drawn its title and one total row and no item row; the right-aligned
  value of the total row is the currency symbol followed by \<open>0.00\<close>; after the title the
  cursor goes down by one line gap, for the total row, before the paddings around the
  separator. The same holds for the deductions section with an empty deductions list.
  The total passed to a section is the one \<open>render_pdf\<close> computes.
\<close>

theorem empty_section_one_total_row:
  "(earnings d = [] \<longrightarrow> totals_labels d (py ''gross_income_label'') = Some l \<longrightarrow>
      (\<exists>s'. run (earnings_section w self d (fst (totals w (earnings d) (deductions d)))) s = Inr s'
        \<and> content (canvas_ops s') = content (canvas_ops s)
           @ [Text Left (py ''EARNINGS:''), Text Left l,
              Text Right (symbol_text (currency_symbol d) @ py ''0.00'')]
        \<and> y_hist s' = y_hist s
           @ [fsub w (cur_y s) 20,
              fsub w (fsub w (cur_y s) 20) (line_gap self),
              fsub w (fsub w (fsub w (cur_y s) 20) (line_gap self)) (fmul w 6 (mm w)),
              fsub w (fsub w (fsub w (fsub w (cur_y s) 20) (line_gap self)) (fmul w 6 (mm w)))
                (fmul w 12 (mm w))]))
   \<and> (deductions d = [] \<longrightarrow> totals_labels d (py ''total_deduction_label'') = Some l \<longrightarrow>
      (\<exists>s'. run (deductions_section w self d (fst (snd (totals w (earnings d) (deductions d))))) s
               = Inr s'
        \<and> content (canvas_ops s') = content (canvas_ops s)
           @ [Text Left (py ''DEDUCTIONS:''), Text Left l,
              Text Right (symbol_text (currency_symbol d) @ py ''0.00'')]
        \<and> y_hist s' = y_hist s
           @ [fsub w (cur_y s) 20, fsub w (fsub w (cur_y s) 20) (line_gap self)]))"
proof (intro conjI impI)
  assume e: "earnings d = []" and l: "totals_labels d (py ''gross_income_label'') = Some l"
  let ?g = "fst (totals w (earnings d) (deductions d))"
  have g: "?g = Fin 0"
    by (simp add: totals_def Let_def py_sum_def e)
  from l have "totals_labels d (py ''gross_income_label'') \<noteq> None" by simp
  from earnings_section_total[OF this] obtain s'
    where r: "run (earnings_section w self d ?g) s = Inr s'" by blast
  have l': "get_or (totals_labels d (py ''gross_income_label'')) [] = l"
    using l by (simp add: get_or_def)
  from earnings_section_empty[OF e r, unfolded l' g fmt_currency_zero]
  have "content (canvas_ops s') = content (canvas_ops s)
           @ [Text Left (py ''EARNINGS:''), Text Left l,
              Text Right (symbol_text (currency_symbol d) @ py ''0.00'')]"
    and "y_hist s' = y_hist s
           @ [fsub w (cur_y s) 20,
              fsub w (fsub w (cur_y s) 20) (line_gap self),
              fsub w (fsub w (fsub w (cur_y s) 20) (line_gap self)) (fmul w 6 (mm w)),
              fsub w (fsub w (fsub w (fsub w (cur_y s) 20) (line_gap self)) (fmul w 6 (mm w)))
                (fmul w 12 (mm w))]"
    by simp_all
  with r show "\<exists>s'. run (earnings_section w self d ?g) s = Inr s'
        \<and> content (canvas_ops s') = content (canvas_ops s)
           @ [Text Left (py ''EARNINGS:''), Text Left l,
              Text Right (symbol_text (currency_symbol d) @ py ''0.00'')]
        \<and> y_hist s' = y_hist s
           @ [fsub w (cur_y s) 20,
              fsub w (fsub w (cur_y s) 20) (line_gap self),
              fsub w (fsub w (fsub w (cur_y s) 20) (line_gap self)) (fmul w 6 (mm w)),
              fsub w (fsub w (fsub w (fsub w (cur_y s) 20) (line_gap self)) (fmul w 6 (mm w)))
                (fmul w 12 (mm w))]"
    by (intro exI[of _ s'] conjI)
next
  assume e: "deductions d = []" and l: "totals_labels d (py ''total_deduction_label'') = Some l"
  let ?t = "fst (snd (totals w (earnings d) (deductions d)))"
  have g: "?t = Fin 0"
    by (simp add: totals_def Let_def py_sum_def e)
  from l have "totals_labels d (py ''total_deduction_label'') \<noteq> None" by simp
  from deductions_section_total[OF this] obtain s'
    where r: "run (deductions_section w self d ?t) s = Inr s'" by blast
  have l': "get_or (totals_labels d (py ''total_deduction_label'')) [] = l"
    using l by (simp add: get_or_def)
  from deductions_section_empty[OF e r, unfolded l' g fmt_currency_zero]
  have "content (canvas_ops s') = content (canvas_ops s)
           @ [Text Left (py ''DEDUCTIONS:''), Text Left l,
              Text Right (symbol_text (currency_symbol d) @ py ''0.00'')]"
    and "y_hist s' = y_hist s
           @ [fsub w (cur_y s) 20, fsub w (fsub w (cur_y s) 20) (line_gap self)]"
    by simp_all
  with r show "\<exists>s'. run (deductions_section w self d ?t) s = Inr s'
        \<and> content (canvas_ops s') = content (canvas_ops s)
           @ [Text Left (py ''DEDUCTIONS:''), Text Left l,
              Text Right (symbol_text (currency_symbol d) @ py ''0.00'')]
        \<and> y_hist s' = y_hist s
           @ [fsub w (cur_y s) 20, fsub w (fsub w (cur_y s) 20) (line_gap self)]"
    by (intro exI[of _ s'] conjI)
qed

theorem empty_section_one_total_row_witness:
  "earnings (sample_payslip\<lparr>earnings := []\<rparr>) = []
   \<and> totals_labels (sample_payslip\<lparr>earnings := []\<rparr>) (py ''gross_income_label'') = Some (py ''GROSS'')
   \<and> content (ran_ops (run (earnings_section sample_world (default_exporter sample_world)
         (sample_payslip\<lparr>earnings := []\<rparr>)
         (fst (totals sample_world (earnings (sample_payslip\<lparr>earnings := []\<rparr>))
                (deductions (sample_payslip\<lparr>earnings := []\<rparr>)))))
         (start_state sample_world (default_exporter sample_world))))
     = [Text Left (py ''EARNINGS:''), Text Left (py ''GROSS''), Text Right (163 # py ''0.00'')]
   \<and> ran_hist (run (earnings_section sample_world (default_exporter sample_world)
         (sample_payslip\<lparr>earnings := []\<rparr>)
         (fst (totals sample_world (earnings (sample_payslip\<lparr>earnings := []\<rparr>))
                (deductions (sample_payslip\<lparr>earnings := []\<rparr>)))))
         (start_state sample_world (default_exporter sample_world)))
     = [101880 / 127, 99340 / 127, 97562 / 127, 95402 / 127, 91082 / 127]
   \<and> deductions (sample_payslip\<lparr>deductions := []\<rparr>) = []
   \<and> totals_labels (sample_payslip\<lparr>deductions := []\<rparr>) (py ''total_deduction_label'')
       = Some (py ''DEDUCTED'')
   \<and> content (ran_ops (run (deductions_section sample_world (default_exporter sample_world)
         (sample_payslip\<lparr>deductions := []\<rparr>)
         (fst (snd (totals sample_world (earnings (sample_payslip\<lparr>deductions := []\<rparr>))
                (deductions (sample_payslip\<lparr>deductions := []\<rparr>))))))
         (start_state sample_world (default_exporter sample_world))))
     = [Text Left (py ''DEDUCTIONS:''), Text Left (py ''DEDUCTED''), Text Right (163 # py ''0.00'')]
   \<and> ran_hist (run (deductions_section sample_world (default_exporter sample_world)
         (sample_payslip\<lparr>deductions := []\<rparr>)
         (fst (snd (totals sample_world (earnings (sample_payslip\<lparr>deductions := []\<rparr>))
                (deductions (sample_payslip\<lparr>deductions := []\<rparr>))))))
         (start_state sample_world (default_exporter sample_world)))
     = [101880 / 127, 99340 / 127, 97562 / 127]"
proof -
  let ?d = "sample_payslip\<lparr>earnings := []\<rparr>"
  let ?g = "fst (totals sample_world (earnings ?d) (deductions ?d))"
  let ?c = "sample_payslip\<lparr>deductions := []\<rparr>"
  let ?t = "fst (snd (totals sample_world (earnings ?c) (deductions ?c)))"
  let ?ex = "default_exporter sample_world"
  let ?s = "start_state sample_world ?ex"
  have e: "earnings ?d = []" by simp
  have l: "totals_labels ?d (py ''gross_income_label'') = Some (py ''GROSS'')"
    by (simp add: sample_payslip_def)
  from empty_section_one_total_row[of ?d "py ''GROSS''" sample_world ?ex ?s,
      THEN conjunct1, THEN mp, OF e, THEN mp, OF l]
  obtain s' where r: "run (earnings_section sample_world ?ex ?d ?g) ?s = Inr s'"
    and c0: "content (canvas_ops s') = content (canvas_ops ?s)
           @ [Text Left (py ''EARNINGS:''), Text Left (py ''GROSS''),
              Text Right (symbol_text (currency_symbol ?d) @ py ''0.00'')]"
    and h0: "y_hist s' = y_hist ?s
           @ [fsub sample_world (cur_y ?s) 20,
              fsub sample_world (fsub sample_world (cur_y ?s) 20) (line_gap ?ex),
              fsub sample_world (fsub sample_world (fsub sample_world (cur_y ?s) 20) (line_gap ?ex))
                (fmul sample_world 6 (mm sample_world)),
              fsub sample_world (fsub sample_world (fsub sample_world (fsub sample_world (cur_y ?s) 20)
                (line_gap ?ex)) (fmul sample_world 6 (mm sample_world)))
                (fmul sample_world 12 (mm sample_world))]"
    by blast
  have c: "content (canvas_ops s')
      = [Text Left (py ''EARNINGS:''), Text Left (py ''GROSS''), Text Right (163 # py ''0.00'')]"
    using c0 by (simp add: start_state_def content_def sample_payslip_def symbol_text_def)
  have h: "y_hist s' = [101880 / 127, 99340 / 127, 97562 / 127, 95402 / 127, 91082 / 127]"
    using h0
    by (simp add: start_state_def fsub_def fmul_def sample_world_def default_exporter_def
          init_exporter_def A4_def)
  have e2: "deductions ?c = []" by simp
  have l2: "totals_labels ?c (py ''total_deduction_label'') = Some (py ''DEDUCTED'')"
    by (simp add: sample_payslip_def)
  from empty_section_one_total_row[of ?c "py ''DEDUCTED''" sample_world ?ex ?s,
      THEN conjunct2, THEN mp, OF e2, THEN mp, OF l2]
  obtain s2 where r2: "run (deductions_section sample_world ?ex ?c ?t) ?s = Inr s2"
    and c20: "content (canvas_ops s2) = content (canvas_ops ?s)
           @ [Text Left (py ''DEDUCTIONS:''), Text Left (py ''DEDUCTED''),
              Text Right (symbol_text (currency_symbol ?c) @ py ''0.00'')]"
    and h20: "y_hist s2 = y_hist ?s
           @ [fsub sample_world (cur_y ?s) 20,
              fsub sample_world (fsub sample_world (cur_y ?s) 20) (line_gap ?ex)]"
    by blast
  have c2: "content (canvas_ops s2)
      = [Text Left (py ''DEDUCTIONS:''), Text Left (py ''DEDUCTED''), Text Right (163 # py ''0.00'')]"
    using c20 by (simp add: start_state_def content_def sample_payslip_def symbol_text_def)
  have h2: "y_hist s2 = [101880 / 127, 99340 / 127, 97562 / 127]"
    using h20
    by (simp add: start_state_def fsub_def fmul_def sample_world_def default_exporter_def
          init_exporter_def A4_def)
  show ?thesis
    unfolding r r2
    by (simp only: ran_ops_def ran_hist_def sum.case c h e l c2 h2 e2 l2 simp_thms)
qed

section \<open>Images that cannot be loaded\<close>

lemma try_draw_image_failed:
  "\<not> image_ok w q \<Longrightarrow> try_draw_image w (Some q) g = try_draw_image w None g"
  by (intro ext) (simp add: try_draw_image_def)

lemma footer_section_logo:
  "footer_section w self (d\<lparr>logo_path := lp\<rparr>) = footer_section w self d"
proof -
  have a: "signature_gap w (d\<lparr>logo_path := lp\<rparr>) = signature_gap w d"
    "name_gap w (d\<lparr>logo_path := lp\<rparr>) = name_gap w d"
    by (simp_all add: signature_gap_def name_gap_def footer_dict_def)
  have b: "footer_steps w self (d\<lparr>logo_path := lp\<rparr>) x y = footer_steps w self d x y" for x y
    by (simp add: footer_steps_def by_label_def by_name_def footer_dict_def Let_def)
  show ?thesis unfolding footer_section_def a b ..
qed

lemma footer_section_signature_failed:
  assumes "signature_path d = Some sp" and "\<not> image_ok w sp"
  shows "footer_section w self (d\<lparr>signature_path := None\<rparr>) = footer_section w self d"
proof -
  have a: "signature_gap w (d\<lparr>signature_path := None\<rparr>) = signature_gap w d"
    "name_gap w (d\<lparr>signature_path := None\<rparr>) = name_gap w d"
    by (simp_all add: signature_gap_def name_gap_def footer_dict_def)
  have b: "footer_steps w self (d\<lparr>signature_path := None\<rparr>) x y = footer_steps w self d x y"
    for x y
    by (simp add: footer_steps_def by_label_def by_name_def footer_dict_def Let_def sig_drawn_def
          assms try_draw_image_failed)
  show ?thesis unfolding footer_section_def a b ..
qed

lemma page_steps_logo_failed:
  assumes "logo_path d = Some lp" and "\<not> image_ok w lp"
  shows "page_steps w self (d\<lparr>logo_path := None\<rparr>) = page_steps w self d"
  by (simp add: page_steps_def header_def employee_info_def earnings_section_def
        deductions_section_def net_pay_section_def footer_section_logo stamp_def stamp_text_def
        Let_def assms try_draw_image_failed split: prod.splits)

lemma page_steps_signature_failed:
  assumes "signature_path d = Some sp" and "\<not> image_ok w sp"
  shows "page_steps w self (d\<lparr>signature_path := None\<rparr>) = page_steps w self d"
  by (simp add: page_steps_def header_def employee_info_def earnings_section_def
        deductions_section_def net_pay_section_def footer_section_signature_failed[OF assms]
        stamp_def stamp_text_def Let_def split: prod.splits)

lemma filter_text_money_rows: "filter is_text (money_rows symbol items) = money_rows symbol items"
  by (induction items) (simp_all add: money_rows_def)

lemma filter_text_shown_image: "filter is_text (shown_image w path) = []"
  by (cases path) (simp_all add: shown_image_def)

lemma image_of_money_rows: "filter (\<lambda>i. \<not> is_text i) (money_rows symbol items) = []"
  by (induction items) (simp_all add: money_rows_def)

lemma image_of_shown_image: "filter (\<lambda>i. \<not> is_text i) (shown_image w path) = shown_image w path"
  by (cases path) (simp_all add: shown_image_def)

lemma page_texts_any_images:
  "filter is_text (page_content (w\<lparr>image_ok := ok\<rparr>) d) = filter is_text (page_content w d)"
proof -
  have "pf_add (w\<lparr>image_ok := ok\<rparr>) x y = pf_add w x y" for x y
    by (cases x; cases y) (simp_all add: fin_def)
  then have "pf_add (w\<lparr>image_ok := ok\<rparr>) = pf_add w"
    by (intro ext)
  then have "totals (w\<lparr>image_ok := ok\<rparr>) es ds = totals w es ds" for es ds
    by (simp add: totals_def py_sum_def pf_sub_def)
  moreover have "stamp_text (w\<lparr>image_ok := ok\<rparr>) d = stamp_text w d"
    by (cases "generated_at d") (simp_all add: stamp_text_def)
  moreover have "py_str (w\<lparr>image_ok := ok\<rparr>) v = py_str w v" for v
    by (cases v) (simp_all add: py_str_def)
  then have "by_label (w\<lparr>image_ok := ok\<rparr>) d = by_label w d"
    "by_name (w\<lparr>image_ok := ok\<rparr>) d = by_name w d"
    by (simp_all add: by_label_def by_name_def)
  ultimately show ?thesis
    by (simp add: page_content_def filter_text_money_rows filter_text_shown_image
          split: prod.splits)
qed

lemma page_images:
  "filter (\<lambda>i. \<not> is_text i) (page_content w d)
     = shown_image w (logo_path d) @ shown_image w (signature_path d)"
  by (simp add: page_content_def image_of_money_rows image_of_shown_image split: prod.splits)

text \<open>
  Claim C7. A logo or a signature that cannot be loaded is treated exactly as an absent
  one: the render gives the result it gives without that path. Whatever the images
  do, a render whose three labels are present, whose two footer gaps are finite numbers
  and whose file can be written returns the output path, ends with \<open>showPage\<close> and
  \<open>save\<close>, draws the same strings in the same order as with any other outcome of loading
  the images, and draws exactly the images that could be loaded.
\<close>

theorem failed_image_not_fatal:
  "(logo_path d = Some lp \<longrightarrow> \<not> image_ok w lp \<longrightarrow>
      render_pdf w self p d = render_pdf w self p (d\<lparr>logo_path := None\<rparr>))
   \<and> (signature_path d = Some sp \<longrightarrow> \<not> image_ok w sp \<longrightarrow>
      render_pdf w self p d = render_pdf w self p (d\<lparr>signature_path := None\<rparr>))
   \<and> (totals_labels d (py ''gross_income_label'') \<noteq> None \<longrightarrow>
       totals_labels d (py ''total_deduction_label'') \<noteq> None \<longrightarrow>
       totals_labels d (py ''net_pay_label'') \<noteq> None \<longrightarrow>
       signature_gap w d = Inr sg \<longrightarrow> name_gap w d = Inr ng \<longrightarrow>
       is_finite sg \<longrightarrow> is_finite ng \<longrightarrow>
       mkdir_error w (resolve w p) = None \<longrightarrow> save_error w (resolve w p) = None \<longrightarrow>
       (\<exists>s cs. render_pdf w self p d = Inr (resolve w p, s)
          \<and> canvas_ops s = cs @ [ShowPage, Save]
          \<and> (\<forall>ok. filter is_text (content (canvas_ops s))
                   = filter is_text (page_content (w\<lparr>image_ok := ok\<rparr>) d))
          \<and> filter (\<lambda>i. \<not> is_text i) (content (canvas_ops s))
                   = shown_image w (logo_path d) @ shown_image w (signature_path d)))"
proof (intro conjI impI)
  assume a: "logo_path d = Some lp" "\<not> image_ok w lp"
  show "render_pdf w self p d = render_pdf w self p (d\<lparr>logo_path := None\<rparr>)"
    unfolding render_pdf_def page_steps_logo_failed[OF a, of self] by (rule refl)
next
  assume a: "signature_path d = Some sp" "\<not> image_ok w sp"
  show "render_pdf w self p d = render_pdf w self p (d\<lparr>signature_path := None\<rparr>)"
    unfolding render_pdf_def page_steps_signature_failed[OF a, of self] by (rule refl)
next
  assume l: "totals_labels d (py ''gross_income_label'') \<noteq> None"
    "totals_labels d (py ''total_deduction_label'') \<noteq> None"
    "totals_labels d (py ''net_pay_label'') \<noteq> None"
    and g: "signature_gap w d = Inr sg" "name_gap w d = Inr ng" "is_finite sg" "is_finite ng"
    and f: "mkdir_error w (resolve w p) = None" "save_error w (resolve w p) = None"
  from render_pdf_succeeds[OF l g f] obtain s
    where r: "render_pdf w self p d = Inr (resolve w p, s)" by blast
  from r obtain t where s: "s = t\<lparr>canvas_ops := canvas_ops t @ [ShowPage, Save]\<rparr>"
    by (rule render_pdf_run)
  then have e: "canvas_ops s = canvas_ops t @ [ShowPage, Save]" by simp
  note c = render_pdf_page(1)[OF r]
  have t: "\<forall>ok. filter is_text (content (canvas_ops s))
                   = filter is_text (page_content (w\<lparr>image_ok := ok\<rparr>) d)"
    by (simp add: c page_texts_any_images)
  have i: "filter (\<lambda>i. \<not> is_text i) (content (canvas_ops s))
                   = shown_image w (logo_path d) @ shown_image w (signature_path d)"
    by (simp only: c page_images)
  show "\<exists>s cs. render_pdf w self p d = Inr (resolve w p, s)
          \<and> canvas_ops s = cs @ [ShowPage, Save]
          \<and> (\<forall>ok. filter is_text (content (canvas_ops s))
                   = filter is_text (page_content (w\<lparr>image_ok := ok\<rparr>) d))
          \<and> filter (\<lambda>i. \<not> is_text i) (content (canvas_ops s))
                   = shown_image w (logo_path d) @ shown_image w (signature_path d)"
    by (rule exI[of _ s], rule exI[of _ "canvas_ops t"]) (intro conjI r e t i)
qed

theorem failed_image_not_fatal_witness:
  "logo_path sample_payslip = Some (py ''logo.png'') \<and> \<not> image_ok sample_world (py ''logo.png'')
   \<and> render_pdf sample_world (default_exporter sample_world) (py ''out/E1_Ada_2026-01.pdf'')
        sample_payslip
     = render_pdf sample_world (default_exporter sample_world) (py ''out/E1_Ada_2026-01.pdf'')
        (sample_payslip\<lparr>logo_path := None\<rparr>)
   \<and> filter (\<lambda>i. \<not> is_text i)
        (content (page_ops (render_pdf sample_world (default_exporter sample_world)
           (py ''out/E1_Ada_2026-01.pdf'') sample_payslip))) = []"
proof -
  let ?R = "render_pdf sample_world (default_exporter sample_world) (py ''out/E1_Ada_2026-01.pdf'')
        sample_payslip"
  have a: "logo_path sample_payslip = Some (py ''logo.png'')"
    and b: "\<not> image_ok sample_world (py ''logo.png'')"
    by (simp_all add: sample_defs)
  note T = failed_image_not_fatal[of sample_payslip "py ''logo.png''" sample_world
      "default_exporter sample_world" "py ''out/E1_Ada_2026-01.pdf''" _ "Fin 4" "Fin 3"]
  note e = T[THEN conjunct1, THEN mp, OF a, THEN mp, OF b]
  have l: "totals_labels sample_payslip (py ''gross_income_label'') \<noteq> None"
    "totals_labels sample_payslip (py ''total_deduction_label'') \<noteq> None"
    "totals_labels sample_payslip (py ''net_pay_label'') \<noteq> None"
    "mkdir_error sample_world (resolve sample_world (py ''out/E1_Ada_2026-01.pdf'')) = None"
    "save_error sample_world (resolve sample_world (py ''out/E1_Ada_2026-01.pdf'')) = None"
    by (simp_all add: sample_defs)
  have g: "is_finite (Fin 4)" "is_finite (Fin 3)" by simp_all
  from T[THEN conjunct2, THEN conjunct2, THEN mp, OF l(1), THEN mp, OF l(2), THEN mp, OF l(3),
      THEN mp, OF sample_gaps(1), THEN mp, OF sample_gaps(2), THEN mp, OF g(1), THEN mp, OF g(2),
      THEN mp, OF l(4), THEN mp, OF l(5)]
  obtain s where r: "?R = Inr (resolve sample_world (py ''out/E1_Ada_2026-01.pdf''), s)"
    and i: "filter (\<lambda>i. \<not> is_text i) (content (canvas_ops s))
        = shown_image sample_world (logo_path sample_payslip)
          @ shown_image sample_world (signature_path sample_payslip)"
    by blast
  have "shown_image sample_world (logo_path sample_payslip)
          @ shown_image sample_world (signature_path sample_payslip) = []"
    by (simp add: shown_image_def sample_defs)
  with i have n: "filter (\<lambda>i. \<not> is_text i) (content (canvas_ops s)) = []" by simp
  have po: "page_ops ?R = canvas_ops s"
    unfolding r by (simp add: page_ops_def)
  show ?thesis
    unfolding po using e by (intro conjI a b n)
qed

section \<open>The batch\<close>















text \<open>
  Claim C8, as stated: with the logo file absent, every employee gets a manifest row
  with an error string that contains the missing path. In the sample run with two
  employees and without fail-fast, in a world without the logo file, \<^verbatim>\<open>main\<close> ends with
  the \<^verbatim>\<open>FileNotFoundError\<close> of the validation: no manifest is written and no row is
  recorded for any employee.
\<close>

theorem missing_logo_no_rows_counterexample:
  "\<not> path_exists no_logo_world (resolve no_logo_world (cfg_logo_path sample_settings))
   \<and> \<not> fail_fast sample_settings
   \<and> length sample_employees = 2
   \<and> raised (main no_logo_world sample_settings (Inr sample_employees))
       = Some (FileNotFoundError
           (py ''Missing required asset '' @ [39] @ py ''logo'' @ [39] @ py '': assets/logo.png''))
   \<and> manifest_file (main no_logo_world sample_settings (Inr sample_employees)) = None
   \<and> recorded_rows (main no_logo_world sample_settings (Inr sample_employees)) = []"
  by (simp add: main_def validate_branding_assets_def validate_asset_def Let_def
        no_logo_world_def sample_world_def sample_settings_def sample_employees_def
        recorded_rows_def)

text \<open>
  Claim C8, amended. The branding assets are validated once, before the employees are
  loaded and outside the \<^verbatim>\<open>try\<close> of the loop. When the logo file is absent, \<^verbatim>\<open>main\<close>
  ends with the \<^verbatim>\<open>FileNotFoundError\<close> whose message is \<open>Missing required asset 'logo': \<close>
  followed by the resolved path, whatever the fail-fast flag and whatever the employees:
  no manifest is written, no row is recorded and no PDF is written.
\<close>

theorem missing_logo_aborts_run:
  assumes "\<not> path_exists w (resolve w (cfg_logo_path cfg))"
  shows "main w cfg loaded
           = \<lparr>raised = Some (FileNotFoundError
                 (py ''Missing required asset '' @ [39] @ py ''logo'' @ [39] @ py '': ''
                  @ resolve w (cfg_logo_path cfg))),
              manifest_file = None, written_pdfs = []\<rparr>
         \<and> recorded_rows (main w cfg loaded) = []"
  using assms
  by (simp add: main_def validate_branding_assets_def validate_asset_def Let_def
        recorded_rows_def)

theorem missing_logo_aborts_run_witness:
  "\<not> path_exists no_logo_world (resolve no_logo_world (cfg_logo_path sample_settings))
   \<and> fail_fast (sample_settings\<lparr>fail_fast := True\<rparr>)
   \<and> written_pdfs (main no_logo_world (sample_settings\<lparr>fail_fast := True\<rparr>) (Inr sample_employees))
       = []
   \<and> raised (main no_logo_world (sample_settings\<lparr>fail_fast := True\<rparr>) (Inr sample_employees))
       = Some (FileNotFoundError
           (py ''Missing required asset '' @ [39] @ py ''logo'' @ [39] @ py '': assets/logo.png''))"
proof -
  have a: "\<not> path_exists no_logo_world (resolve no_logo_world (cfg_logo_path sample_settings))"
    by (simp add: no_logo_world_def sample_world_def sample_settings_def)
  then have b: "\<not> path_exists no_logo_world
      (resolve no_logo_world (cfg_logo_path (sample_settings\<lparr>fail_fast := True\<rparr>)))"
    by simp
  have p: "resolve no_logo_world (cfg_logo_path (sample_settings\<lparr>fail_fast := True\<rparr>))
      = py ''assets/logo.png''"
    by (simp add: no_logo_world_def sample_world_def sample_settings_def)
  from missing_logo_aborts_run[OF b, of "Inr sample_employees", THEN conjunct1]
  have "main no_logo_world (sample_settings\<lparr>fail_fast := True\<rparr>) (Inr sample_employees)
           = \<lparr>raised = Some (FileNotFoundError
                 (py ''Missing required asset '' @ [39] @ py ''logo'' @ [39] @ py '': ''
                  @ py ''assets/logo.png'')),
              manifest_file = None, written_pdfs = []\<rparr>"
    unfolding p .
  then show ?thesis using a by simp
qed




end
